theory Spec2Isabelle
  imports Main "HOL-Library.Product_Lexorder"
begin

section \<open>Python values used by \<open>main.py\<close>\<close>

text \<open>
  The module works with \<open>datetime.datetime\<close>, \<open>datetime.time\<close> and
  \<open>datetime.timedelta\<close> values, with strings, and with a document collection.
  Python integers are unbounded and are modelled as \<open>int\<close>. The microsecond field of the
  standard library's types is zero in every value \<open>main.py\<close> constructs and is left out.
\<close>

datatype error = HTTPException int string | OverflowError | ValueError

record date =
  year :: int
  month :: int
  day :: int

record time =
  hour :: int
  minute :: int
  second :: int

record datetime =
  date_part :: date
  time_part :: time

record timedelta =
  days :: int
  seconds :: int

subsection \<open>Calendar\<close>

definition MINYEAR :: int where "MINYEAR = 1"
definition MAXYEAR :: int where "MAXYEAR = 9999"

definition is_leap :: "int \<Rightarrow> bool" where
  "is_leap y = (y mod 4 = 0 \<and> (y mod 100 \<noteq> 0 \<or> y mod 400 = 0))"

definition DAYS_IN_MONTH :: "int list" where
  "DAYS_IN_MONTH = [-1, 31, 28, 31, 30, 31, 30, 31, 31, 30, 31, 30, 31]"

definition DAYS_BEFORE_MONTH :: "int list" where
  "DAYS_BEFORE_MONTH = [-1, 0, 31, 59, 90, 120, 151, 181, 212, 243, 273, 304, 334]"

text \<open>Both tables are only read at a month between 1 and 12.\<close>

definition days_in_month :: "int \<Rightarrow> int \<Rightarrow> int" where
  "days_in_month y m = (if m = 2 \<and> is_leap y then 29 else DAYS_IN_MONTH ! nat m)"

definition days_before_year :: "int \<Rightarrow> int" where
  "days_before_year y = (y - 1) * 365 + (y - 1) div 4 - (y - 1) div 100 + (y - 1) div 400"

definition days_before_month :: "int \<Rightarrow> int \<Rightarrow> int" where
  "days_before_month y m = DAYS_BEFORE_MONTH ! nat m + (if m > 2 \<and> is_leap y then 1 else 0)"

definition valid_date :: "date \<Rightarrow> bool" where
  "valid_date d = (MINYEAR \<le> year d \<and> year d \<le> MAXYEAR \<and> 1 \<le> month d \<and> month d \<le> 12
     \<and> 1 \<le> day d \<and> day d \<le> days_in_month (year d) (month d))"

definition valid_time :: "time \<Rightarrow> bool" where
  "valid_time t = (0 \<le> hour t \<and> hour t \<le> 23 \<and> 0 \<le> minute t \<and> minute t \<le> 59
     \<and> 0 \<le> second t \<and> second t \<le> 59)"

definition valid_datetime :: "datetime \<Rightarrow> bool" where
  "valid_datetime dt = (valid_date (date_part dt) \<and> valid_time (time_part dt))"

text \<open>\<open>date.toordinal()\<close> and \<open>date.weekday()\<close> (Monday is 0, Sunday is 6).\<close>

definition toordinal :: "date \<Rightarrow> int" where
  "toordinal d = days_before_year (year d) + days_before_month (year d) (month d) + day d"

definition weekday :: "datetime \<Rightarrow> int" where
  "weekday dt = (toordinal (date_part dt) + 6) mod 7"

text \<open>
  The constructors \<open>datetime(y, m, d)\<close> and \<open>time(hour=h, minute=m)\<close> raise
  \<open>ValueError\<close> on a field out of range; \<open>None\<close> stands for that exception.
\<close>

definition mk_datetime :: "int \<Rightarrow> int \<Rightarrow> int \<Rightarrow> datetime option" where
  "mk_datetime y m d =
     (let dd = \<lparr>year = y, month = m, day = d\<rparr>
      in if valid_date dd
         then Some \<lparr>date_part = dd, time_part = \<lparr>hour = 0, minute = 0, second = 0\<rparr>\<rparr>
         else None)"

definition mk_time :: "int \<Rightarrow> int \<Rightarrow> time option" where
  "mk_time h m =
     (let t = \<lparr>hour = h, minute = m, second = 0\<rparr>
      in if valid_time t then Some t else None)"

definition combine :: "date \<Rightarrow> time \<Rightarrow> datetime" where
  "combine d t = \<lparr>date_part = d, time_part = t\<rparr>"

subsection \<open>Arithmetic on \<open>datetime\<close>\<close>

text \<open>
  \<open>timedelta(days, hours, minutes)\<close> normalises to days and seconds with
  \<open>0 \<le> seconds < 86400\<close>; negation renormalises.
\<close>

definition mk_timedelta :: "int \<Rightarrow> int \<Rightarrow> int \<Rightarrow> timedelta" where
  "mk_timedelta d h m =
     (let s = h * 3600 + m * 60
      in \<lparr>days = d + s div 86400, seconds = s mod 86400\<rparr>)"

definition neg_timedelta :: "timedelta \<Rightarrow> timedelta" where
  "neg_timedelta td =
     \<lparr>days = - days td + (- seconds td) div 86400, seconds = (- seconds td) mod 86400\<rparr>"

text \<open>
  The day after and the day before a date. The standard library raises
  \<open>OverflowError\<close> when a result would leave the years 1 to 9999.
\<close>

definition next_day :: "date \<Rightarrow> error + date" where
  "next_day d =
     (if day d < days_in_month (year d) (month d) then Inr (d\<lparr>day := day d + 1\<rparr>)
      else if month d < 12 then Inr (d\<lparr>month := month d + 1, day := 1\<rparr>)
      else if year d < MAXYEAR then Inr \<lparr>year = year d + 1, month = 1, day = 1\<rparr>
      else Inl OverflowError)"

definition prev_day :: "date \<Rightarrow> error + date" where
  "prev_day d =
     (if 1 < day d then Inr (d\<lparr>day := day d - 1\<rparr>)
      else if 1 < month d
        then Inr (d\<lparr>month := month d - 1, day := days_in_month (year d) (month d - 1)\<rparr>)
      else if MINYEAR < year d then Inr \<lparr>year = year d - 1, month = 12, day = 31\<rparr>
      else Inl OverflowError)"

function shift_days :: "date \<Rightarrow> int \<Rightarrow> error + date" where
  "shift_days d k =
     (if k = 0 then Inr d
      else if 0 < k then (case next_day d of Inl e \<Rightarrow> Inl e | Inr d' \<Rightarrow> shift_days d' (k - 1))
      else (case prev_day d of Inl e \<Rightarrow> Inl e | Inr d' \<Rightarrow> shift_days d' (k + 1)))"
  by pat_completeness auto
termination
  by (relation "measure (\<lambda>(d, k). nat \<bar>k\<bar>)") auto

text \<open>\<open>dt + td\<close> and \<open>dt - td\<close> for a \<open>datetime\<close> and a \<open>timedelta\<close>.\<close>

definition seconds_of_time :: "time \<Rightarrow> int" where
  "seconds_of_time t = hour t * 3600 + minute t * 60 + second t"

definition time_of_seconds :: "int \<Rightarrow> time" where
  "time_of_seconds r = \<lparr>hour = r div 3600, minute = r mod 3600 div 60, second = r mod 60\<rparr>"

definition datetime_add :: "datetime \<Rightarrow> timedelta \<Rightarrow> error + datetime" where
  "datetime_add dt td =
     (let total = seconds_of_time (time_part dt) + seconds td
      in case shift_days (date_part dt) (days td + total div 86400) of
           Inl e \<Rightarrow> Inl e
         | Inr d' \<Rightarrow> Inr \<lparr>date_part = d', time_part = time_of_seconds (total mod 86400)\<rparr>)"

definition datetime_sub :: "datetime \<Rightarrow> timedelta \<Rightarrow> error + datetime" where
  "datetime_sub dt td = datetime_add dt (neg_timedelta td)"

text \<open>Comparison of two \<open>datetime\<close> values is the comparison of their field tuples.\<close>

definition dt_key :: "datetime \<Rightarrow> int \<times> int \<times> int \<times> int \<times> int \<times> int" where
  "dt_key dt = (year (date_part dt), month (date_part dt), day (date_part dt),
                hour (time_part dt), minute (time_part dt), second (time_part dt))"

definition dt_lt :: "datetime \<Rightarrow> datetime \<Rightarrow> bool" where
  "dt_lt a b = (dt_key a < dt_key b)"

definition dt_le :: "datetime \<Rightarrow> datetime \<Rightarrow> bool" where
  "dt_le a b = (dt_key a \<le> dt_key b)"


subsection \<open>Strings\<close>

text \<open>
  Strings are byte strings: a Python text in UTF-8. \<open>str.split(sep)\<close> with a
  one-character ASCII separator cuts the bytes where it cuts the characters.

  The builtin \<open>int\<close> is not written out. What it accepts depends on Unicode tables (blanks
  and decimal digits of every script) and on the interpreter's limit on the number of
  digits, so every function below that calls it takes it as the parameter \<open>int_of\<close>;
  \<open>None\<close> stands for its exception.
\<close>

fun split_on :: "char \<Rightarrow> string \<Rightarrow> string list" where
  "split_on c [] = [[]]"
| "split_on c (x # xs) =
     (if x = c then [] # split_on c xs
      else (case split_on c xs of [] \<Rightarrow> [[x]] | w # ws \<Rightarrow> (x # w) # ws))"

definition is_digit :: "char \<Rightarrow> bool" where
  "is_digit c = (c \<in> set ''0123456789'')"

definition digit_val :: "char \<Rightarrow> int" where
  "digit_val c = int (of_char c) - 48"

text \<open>
  Formatting an integer with \<open>%0wd\<close> (the same as \<open>{n:0wd}\<close> in an f-string): decimal
  digits, padded with zeros after the sign to the width \<open>w\<close>.
\<close>

definition digit_char :: "nat \<Rightarrow> char" where
  "digit_char n = ''0123456789'' ! n"

fun digits :: "nat \<Rightarrow> string" where
  "digits n = (if n < 10 then [digit_char n] else digits (n div 10) @ [digit_char (n mod 10)])"

definition zfill :: "nat \<Rightarrow> string \<Rightarrow> string" where
  "zfill w s = replicate (w - length s) CHR ''0'' @ s"

definition fmt_d :: "nat \<Rightarrow> int \<Rightarrow> string" where
  "fmt_d w n = (if n < 0 then CHR ''-'' # zfill (w - 1) (digits (nat (- n)))
                else zfill w (digits (nat n)))"

text \<open>\<open>datetime.isoformat()\<close> for a value without microseconds and time zone.\<close>

definition isoformat :: "datetime \<Rightarrow> string" where
  "isoformat dt =
     fmt_d 4 (year (date_part dt)) @ ''-'' @ fmt_d 2 (month (date_part dt)) @ ''-''
       @ fmt_d 2 (day (date_part dt)) @ ''T'' @ fmt_d 2 (hour (time_part dt)) @ '':''
       @ fmt_d 2 (minute (time_part dt)) @ '':'' @ fmt_d 2 (second (time_part dt))"

text \<open>The f-string \<open>f"{h:02d}:{m:02d}"\<close>.\<close>

definition hhmm :: "int \<Rightarrow> int \<Rightarrow> string" where
  "hhmm h m = fmt_d 2 h @ '':'' @ fmt_d 2 m"

text \<open>
  The document store compares strings byte by byte; a proper prefix is smaller.
\<close>

fun str_lt :: "string \<Rightarrow> string \<Rightarrow> bool" where
  "str_lt [] [] = False"
| "str_lt [] (y # ys) = True"
| "str_lt (x # xs) [] = False"
| "str_lt (x # xs) (y # ys) =
     ((of_char x :: nat) < of_char y \<or> (x = y \<and> str_lt xs ys))"

definition str_le :: "string \<Rightarrow> string \<Rightarrow> bool" where
  "str_le a b = (\<not> str_lt b a)"


section \<open>The module \<open>main.py\<close>\<close>

subsection \<open>Constants and helpers\<close>

definition IST_OFFSET :: timedelta where "IST_OFFSET = mk_timedelta 0 5 30"
definition SLOT_MINUTES :: int where "SLOT_MINUTES = 30"
definition START_HOUR_IST :: int where "START_HOUR_IST = 9"
definition END_HOUR_IST :: int where "END_HOUR_IST = 17"

definition invalid_date_error :: error where
  "invalid_date_error = HTTPException 400 ''Invalid date format. Use YYYY-MM-DD''"

definition weekend_error :: error where
  "weekend_error = HTTPException 400 ''Bookings allowed Monday to Friday only''"

definition invalid_time_error :: error where
  "invalid_time_error = HTTPException 400 ''Invalid time format. Use HH:MM 24h''"

definition out_of_hours_error :: error where
  "out_of_hours_error = HTTPException 400 ''Time must be between 09:00 and 17:00 IST''"

definition conflict_error :: error where
  "conflict_error =
     HTTPException 409 ''This time slot has already been booked. Please choose another.''"

text \<open>
  \<open>ist_date_from_str\<close>: every exception of the three-way unpacking, of \<open>int\<close> and of the
  \<open>datetime\<close> constructor becomes the HTTP error 400.
\<close>

definition ist_date_from_str :: "(string \<Rightarrow> int option) \<Rightarrow> string \<Rightarrow> error + datetime" where
  "ist_date_from_str int_of date_str =
     (case map int_of (split_on CHR ''-'' date_str) of
        [Some y, Some m, Some d] \<Rightarrow>
          (case mk_datetime y m d of
             Some dt \<Rightarrow> Inr dt
           | None \<Rightarrow> Inl invalid_date_error)
      | _ \<Rightarrow> Inl invalid_date_error)"

definition to_utc_from_ist :: "datetime \<Rightarrow> time \<Rightarrow> error + datetime" where
  "to_utc_from_ist date_ist t = datetime_sub (combine (date_part date_ist) t) IST_OFFSET"

definition overlaps :: "datetime \<Rightarrow> datetime \<Rightarrow> datetime \<Rightarrow> datetime \<Rightarrow> bool" where
  "overlaps a_start a_end b_start b_end = (dt_lt a_start b_end \<and> dt_lt b_start a_end)"

text \<open>
  The two lines \<open>h, m = map(int, payload.time.split(":"))\<close> and
  \<open>t_obj = time(hour=h, minute=m)\<close> of \<open>create_booking\<close>; \<open>None\<close> is any exception.
\<close>

definition parse_time :: "(string \<Rightarrow> int option) \<Rightarrow> string \<Rightarrow> time option" where
  "parse_time int_of s =
     (case map int_of (split_on CHR '':'' s) of
        [Some h, Some m] \<Rightarrow> mk_time h m
      | _ \<Rightarrow> None)"

subsection \<open>Requests, responses and the document store\<close>

record BookingRequest =
  name :: string
  email :: string
  phone :: "string option"
  date :: string
  time :: string
  notes' :: "string option"

text \<open>
  The framework checks the request against the field declarations before
  \<open>create_booking\<close> is entered and answers 422 otherwise. The declaration of \<open>name\<close> is
  \<open>Field(..., min_length=2, max_length=100)\<close>, counted in characters, which for an ASCII
  name are its bytes. The check of \<open>email\<close> against \<open>EmailStr\<close> is not written out.
\<close>

definition name_length_ok :: "BookingRequest \<Rightarrow> bool" where
  "name_length_ok payload =
     (2 \<le> length (BookingRequest.name payload) \<and> length (BookingRequest.name payload) \<le> 100)"

record BookingResponse =
  status :: string
  date :: string
  time :: string
  timezone :: string

record AvailabilityResponse =
  date :: string
  slots :: "string list"

text \<open>
  Modelled from the spec: the \<open>Booking\<close> schema of the module \<open>schemas\<close>, which is not
  among the sources. Its fields are the keyword arguments \<open>create_booking\<close> passes, the
  persisted record of the specification's data model.
\<close>

record Booking =
  name :: string
  email :: string
  phone :: "string option"
  date_ist :: string
  start_time_ist :: string
  start_utc_iso :: string
  end_utc_iso :: string
  notes' :: "string option"

text \<open>
  The store holds the collection \<open>booking\<close>. To make store accesses observable, the
  state also records every operation issued against the collection, in order.
\<close>

datatype db_op = Find | FindOne | InsertOne

record db_state =
  booking :: "Booking list"
  ops :: "db_op list"

text \<open>
  The range query \<open>{"start_utc_iso": {"$gte": lo, "$lt": hi}}\<close> and the query
  \<open>{"start_utc_iso": {"$lt": end}, "end_utc_iso": {"$gt": start}}\<close> of the conflict check,
  on string fields.
\<close>

definition in_window :: "string \<Rightarrow> string \<Rightarrow> Booking \<Rightarrow> bool" where
  "in_window lo hi doc = (str_le lo (start_utc_iso doc) \<and> str_lt (start_utc_iso doc) hi)"

definition conflicts :: "string \<Rightarrow> string \<Rightarrow> Booking \<Rightarrow> bool" where
  "conflicts start_iso end_iso doc =
     (str_lt (start_utc_iso doc) end_iso \<and> str_lt start_iso (end_utc_iso doc))"

definition col_find :: "(Booking \<Rightarrow> bool) \<Rightarrow> db_state \<Rightarrow> Booking list \<times> db_state" where
  "col_find q db = (filter q (booking db), db\<lparr>ops := ops db @ [Find]\<rparr>)"

definition col_find_one :: "(Booking \<Rightarrow> bool) \<Rightarrow> db_state \<Rightarrow> Booking option \<times> db_state" where
  "col_find_one q db = (find q (booking db), db\<lparr>ops := ops db @ [FindOne]\<rparr>)"

text \<open>
  Modelled from the spec: \<open>create_document\<close> of the module \<open>database\<close>, which is not among
  the sources. The specification describes it as a single-document insert; the generated
  identifier it returns is not used by \<open>create_booking\<close>.
\<close>

definition create_document :: "Booking \<Rightarrow> db_state \<Rightarrow> db_state" where
  "create_document doc db = db\<lparr>booking := booking db @ [doc], ops := ops db @ [InsertOne]\<rparr>"

subsection \<open>\<open>get_availability\<close>\<close>

text \<open>
  The slot loop. \<open>current\<close> starts at 09:00; each round appends its \<open>HH:MM\<close> text and
  moves on by \<open>SLOT_MINUTES\<close> through a \<open>datetime\<close> on the requested date.
\<close>

definition slot_measure :: "time \<Rightarrow> nat" where
  "slot_measure t = (if valid_time t then nat (1020 - (hour t * 60 + minute t)) else 2000)"

function slot_loop :: "date \<Rightarrow> time \<Rightarrow> string list \<Rightarrow> error + string list" where
  "slot_loop d current all_slots_ist =
     (if hour current \<ge> END_HOUR_IST \<or> (hour current = END_HOUR_IST \<and> minute current > 0)
      then Inr all_slots_ist
      else (case datetime_add (combine d current) (mk_timedelta 0 0 SLOT_MINUTES) of
              Inl e \<Rightarrow> Inl e
            | Inr dt \<Rightarrow>
                (case mk_time (hour (time_part dt)) (minute (time_part dt)) of
                   None \<Rightarrow> Inl ValueError
                 | Some current' \<Rightarrow>
                     slot_loop d current'
                       (all_slots_ist @ [hhmm (hour current) (minute current)]))))"
  by pat_completeness auto

text \<open>
  The loop ends: a round takes a valid time before 17:00 half an hour further on the same
  day, and any other value to a valid time.
\<close>

lemma hm_of_seconds:
  "(r div 3600) * 3600 + (r mod 3600 div 60) * 60 = r - r mod 60" for r :: int
proof -
  have a: "r = 3600 * (r div 3600) + r mod 3600" by simp
  have b: "r mod 3600 = 60 * (r mod 3600 div 60) + r mod 3600 mod 60" by simp
  have c: "r mod 3600 mod 60 = r mod 60" by (simp add: mod_mod_cancel)
  show ?thesis using a b c by linarith
qed

lemma datetime_add_time_part:
  "datetime_add dt td = Inr dt' \<Longrightarrow>
   time_part dt' = time_of_seconds ((seconds_of_time (time_part dt) + seconds td) mod 86400)"
  by (auto simp: datetime_add_def Let_def split: sum.splits)

lemma slot_step_measure:
  assumes "hour c < 17"
    and "datetime_add (combine d c) (mk_timedelta 0 0 30) = Inr dt"
    and "mk_time (hour (time_part dt)) (minute (time_part dt)) = Some c'"
  shows "slot_measure c' < slot_measure c"
proof -
  define r where "r = (hour c * 3600 + minute c * 60 + second c + 1800) mod 86400"
  have tp: "time_part dt = \<lparr>hour = r div 3600, minute = r mod 3600 div 60, second = r mod 60\<rparr>"
    using datetime_add_time_part[OF assms(2)]
    by (simp add: combine_def mk_timedelta_def Let_def r_def seconds_of_time_def
        time_of_seconds_def)
  have c': "hour c' = r div 3600" "minute c' = r mod 3600 div 60" and v': "valid_time c'"
    using assms(3) by (auto simp: mk_time_def Let_def tp split: if_splits)
  have m': "(hour c' * 60 + minute c') * 60 = r - r mod 60"
    using hm_of_seconds[of r] by (simp add: c' algebra_simps)
  have rm: "0 \<le> r mod 60" "r mod 60 < 60" by simp_all
  show ?thesis
  proof (cases "valid_time c")
    case False
    have "0 \<le> hour c' * 60 + minute c'" using v' by (simp add: valid_time_def)
    then show ?thesis using v' False by (simp add: slot_measure_def)
  next
    case True
    then have "hour c * 3600 + minute c * 60 + second c + 1800 < 86400"
      "0 \<le> hour c * 3600 + minute c * 60 + second c + 1800"
      using assms(1) by (auto simp: valid_time_def)
    then have "r = hour c * 3600 + minute c * 60 + second c + 1800" by (simp add: r_def)
    then have "hour c' * 60 + minute c' > hour c * 60 + minute c"
      using m' rm True by (simp add: valid_time_def) linarith
    moreover have "hour c * 60 + minute c < 1020"
      using True assms(1) by (simp add: valid_time_def)
    ultimately show ?thesis using True v' by (simp add: slot_measure_def)
  qed
qed

termination slot_loop
  apply (relation "measure (\<lambda>(d, c, a). slot_measure c)")
   apply simp
  apply (simp add: END_HOUR_IST_def SLOT_MINUTES_def)
  apply (rule slot_step_measure)
    apply auto
  done

text \<open>
  The loop over the documents the range query returned. \<open>fromiso\<close> is
  \<open>datetime.fromisoformat\<close>, whose accepted inputs differ between Python versions; it is a
  parameter, \<open>None\<close> standing for its exception. A document on which either parse or the
  addition of the offset raises is skipped, as the \<open>try\<close> block does.
\<close>

fun mark_taken :: "(string \<Rightarrow> datetime option) \<Rightarrow> Booking list \<Rightarrow> string set \<Rightarrow> string set" where
  "mark_taken fromiso [] taken = taken"
| "mark_taken fromiso (doc # existing) taken =
     (case fromiso (start_utc_iso doc) of
        None \<Rightarrow> mark_taken fromiso existing taken
      | Some s \<Rightarrow>
          (case fromiso (end_utc_iso doc) of
             None \<Rightarrow> mark_taken fromiso existing taken
           | Some e \<Rightarrow>
               (case datetime_add s IST_OFFSET of
                  Inl _ \<Rightarrow> mark_taken fromiso existing taken
                | Inr ist_start \<Rightarrow>
                    mark_taken fromiso existing
                      (insert (hhmm (hour (time_part ist_start)) (minute (time_part ist_start)))
                         taken))))"

definition midnight :: time where
  "midnight = \<lparr>hour = 0, minute = 0, second = 0\<rparr>"

definition get_availability ::
  "(string \<Rightarrow> int option) \<Rightarrow> (string \<Rightarrow> datetime option) \<Rightarrow> string \<Rightarrow> db_state
     \<Rightarrow> (error + AvailabilityResponse) \<times> db_state" where
  "get_availability int_of fromiso date_str db =
     (case ist_date_from_str int_of date_str of
        Inl e \<Rightarrow> (Inl e, db)
      | Inr date_dt \<Rightarrow>
          if weekday date_dt \<ge> 5
          then (Inr \<lparr>AvailabilityResponse.date = date_str, slots = []\<rparr>, db)
          else
            (case slot_loop (date_part date_dt)
                    \<lparr>hour = START_HOUR_IST, minute = 0, second = 0\<rparr> [] of
               Inl e \<Rightarrow> (Inl e, db)
             | Inr all_slots_ist \<Rightarrow>
                 (case to_utc_from_ist date_dt midnight of
                    Inl e \<Rightarrow> (Inl e, db)
                  | Inr day_start_utc \<Rightarrow>
                      (case datetime_add date_dt (mk_timedelta 1 0 0) of
                         Inl e \<Rightarrow> (Inl e, db)
                       | Inr next_dt \<Rightarrow>
                           (case to_utc_from_ist next_dt midnight of
                              Inl e \<Rightarrow> (Inl e, db)
                            | Inr day_end_utc \<Rightarrow>
                                (let (existing, db') =
                                       col_find (in_window (isoformat day_start_utc)
                                                   (isoformat day_end_utc)) db;
                                     taken = mark_taken fromiso existing {};
                                     available = filter (\<lambda>slot. slot \<notin> taken) all_slots_ist
                                 in (Inr \<lparr>AvailabilityResponse.date = date_str,
                                          slots = available\<rparr>, db')))))))"

subsection \<open>\<open>create_booking\<close>\<close>

definition create_booking ::
  "(string \<Rightarrow> int option) \<Rightarrow> BookingRequest \<Rightarrow> db_state
     \<Rightarrow> (error + BookingResponse) \<times> db_state" where
  "create_booking int_of payload db =
     (case ist_date_from_str int_of (BookingRequest.date payload) of
        Inl e \<Rightarrow> (Inl e, db)
      | Inr date_dt \<Rightarrow>
          if weekday date_dt \<ge> 5 then (Inl weekend_error, db)
          else
            (case parse_time int_of (BookingRequest.time payload) of
               None \<Rightarrow> (Inl invalid_time_error, db)
             | Some t_obj \<Rightarrow>
                 if \<not> (START_HOUR_IST \<le> hour t_obj \<and> hour t_obj < END_HOUR_IST)
                 then (Inl out_of_hours_error, db)
                 else
                   (case to_utc_from_ist date_dt t_obj of
                      Inl e \<Rightarrow> (Inl e, db)
                    | Inr start_utc \<Rightarrow>
                        (case datetime_add start_utc (mk_timedelta 0 0 SLOT_MINUTES) of
                           Inl e \<Rightarrow> (Inl e, db)
                         | Inr end_utc \<Rightarrow>
                             (let (conflict, db') =
                                    col_find_one (conflicts (isoformat start_utc)
                                                    (isoformat end_utc)) db
                              in case conflict of
                                   Some _ \<Rightarrow> (Inl conflict_error, db')
                                 | None \<Rightarrow>
                                     (Inr \<lparr>status = ''confirmed'',
                                           BookingResponse.date = BookingRequest.date payload,
                                           BookingResponse.time = BookingRequest.time payload,
                                           timezone = ''IST''\<rparr>,
                                      create_document
                                        \<lparr>Booking.name = BookingRequest.name payload,
                                         Booking.email = BookingRequest.email payload,
                                         Booking.phone = BookingRequest.phone payload,
                                         date_ist = BookingRequest.date payload,
                                         start_time_ist = BookingRequest.time payload,
                                         start_utc_iso = isoformat start_utc,
                                         end_utc_iso = isoformat end_utc,
                                         Booking.notes' = BookingRequest.notes' payload\<rparr>
                                        db'))))))"

subsection \<open>Values the properties below refer to\<close>

text \<open>
  The sixteen slot texts from 09:00 to 16:30, the list the loop of \<open>get_availability\<close>
  is shown to build.
\<close>

definition full_grid :: "string list" where
  "full_grid = [''09:00'', ''09:30'', ''10:00'', ''10:30'', ''11:00'', ''11:30'', ''12:00'',
                ''12:30'', ''13:00'', ''13:30'', ''14:00'', ''14:30'', ''15:00'', ''15:30'',
                ''16:00'', ''16:30'']"

text \<open>
  What is assumed of \<open>datetime.fromisoformat\<close>: it is the inverse of \<open>isoformat\<close> on the
  texts \<open>isoformat\<close> produces.
\<close>

definition inverts_isoformat :: "(string \<Rightarrow> datetime option) \<Rightarrow> bool" where
  "inverts_isoformat fromiso = (\<forall>dt. valid_datetime dt \<longrightarrow> fromiso (isoformat dt) = Some dt)"

text \<open>
  One parser with that property, reading exactly the shape \<open>YYYY-MM-DDTHH:MM:SS\<close>. The
  standard library accepts more texts than this one; it serves as an instance of the
  parameter \<open>fromiso\<close>.
\<close>

definition digits_to_int :: "string \<Rightarrow> int option" where
  "digits_to_int s =
     (if s \<noteq> [] \<and> list_all is_digit s
      then Some (foldl (\<lambda>acc c. acc * 10 + digit_val c) 0 s) else None)"

definition fromisoformat_seconds :: "string \<Rightarrow> datetime option" where
  "fromisoformat_seconds s =
     (if length s = 19 \<and> s ! 4 = CHR ''-'' \<and> s ! 7 = CHR ''-'' \<and> s ! 10 = CHR ''T''
         \<and> s ! 13 = CHR '':'' \<and> s ! 16 = CHR '':''
      then (case map digits_to_int
                   [take 4 s, take 2 (drop 5 s), take 2 (drop 8 s), take 2 (drop 11 s),
                    take 2 (drop 14 s), take 2 (drop 17 s)] of
              [Some y, Some m, Some d, Some h, Some mi, Some sec] \<Rightarrow>
                (let dt = \<lparr>date_part = \<lparr>year = y, month = m, day = d\<rparr>,
                           time_part = \<lparr>hour = h, minute = mi, second = sec\<rparr>\<rparr>
                 in if valid_datetime dt then Some dt else None)
            | _ \<Rightarrow> None)
      else None)"

text \<open>
  What is assumed of \<open>int\<close> where a property needs it: a text of one to 4300 ASCII
  digits, and nothing else, is read as its decimal value. (4300 is the default limit on
  digits of the interpreters that have one.)
\<close>

definition reads_decimal :: "(string \<Rightarrow> int option) \<Rightarrow> bool" where
  "reads_decimal int_of =
     (\<forall>s. s \<noteq> [] \<and> length s \<le> 4300 \<and> list_all is_digit s \<longrightarrow> int_of s = digits_to_int s)"

text \<open>
  One function with that property, as an instance of the parameter \<open>int_of\<close> for the
  worked examples. It reads ASCII texts the way \<open>int\<close> does: the blanks
  \<open>' '\<close>, \<open>\t\<close>, \<open>\n\<close>, \<open>\v\<close>, \<open>\f\<close>, \<open>\r\<close> around the number are dropped, one sign is
  allowed, and the digits may be grouped by single underscores. Texts with other bytes,
  which \<open>int\<close> may accept, and texts of more than 4300 bytes are refused here; no
  property below depends on what the instance does with them.
\<close>

definition is_space :: "char \<Rightarrow> bool" where
  "is_space c = (c \<in> set [CHR '' '', CHR 0x09, CHR 0x0A, CHR 0x0B, CHR 0x0C, CHR 0x0D])"

definition strip :: "string \<Rightarrow> string" where
  "strip s = rev (dropWhile is_space (rev (dropWhile is_space s)))"

fun digits_value :: "int \<Rightarrow> string \<Rightarrow> int option" where
  "digits_value acc [] = Some acc"
| "digits_value acc (c # cs) =
     (if is_digit c then digits_value (acc * 10 + digit_val c) cs
      else if c = CHR ''_'' \<and> cs \<noteq> [] \<and> is_digit (hd cs) then digits_value acc cs
      else None)"

definition unsigned_int :: "string \<Rightarrow> int option" where
  "unsigned_int u = (if u \<noteq> [] \<and> is_digit (hd u) then digits_value 0 u else None)"

definition ascii_int :: "string \<Rightarrow> int option" where
  "ascii_int s =
     (if length s > 4300 then None
      else case strip s of
        [] \<Rightarrow> None
      | c # r \<Rightarrow>
          if c = CHR ''-'' then map_option uminus (unsigned_int r)
          else if c = CHR ''+'' then unsigned_int r
          else unsigned_int (c # r))"

text \<open>
  A request the framework lets through, for a date and a time, and the store before any
  booking.
\<close>

definition example_request :: "string \<Rightarrow> string \<Rightarrow> BookingRequest" where
  "example_request d t =
     \<lparr>BookingRequest.name = ''Asha'', email = ''a@x.com'', phone = None, date = d, time = t,
      notes' = None\<rparr>"

definition empty_db :: db_state where
  "empty_db = \<lparr>booking = [], ops = []\<rparr>"

section \<open>Auxiliary facts\<close>

subsection \<open>Times of day\<close>

lemma seconds_of_time_of_seconds: "seconds_of_time (time_of_seconds r) = r"
  using hm_of_seconds[of r] by (simp add: seconds_of_time_def time_of_seconds_def)

lemma seconds_of_time_bounds:
  "valid_time t \<Longrightarrow> 0 \<le> seconds_of_time t \<and> seconds_of_time t < 86400"
  by (auto simp: valid_time_def seconds_of_time_def)

lemma time_of_seconds_of_time:
  assumes "valid_time t"
  shows "time_of_seconds (seconds_of_time t) = t"
proof -
  have ms: "0 \<le> minute t * 60 + second t" "minute t * 60 + second t < 3600"
    using assms by (auto simp: valid_time_def)
  have h: "(hour t * 3600 + (minute t * 60 + second t)) div 3600 = hour t"
    using ms by simp
  have r: "(hour t * 3600 + (minute t * 60 + second t)) mod 3600 = minute t * 60 + second t"
    using ms by simp
  have m: "(minute t * 60 + second t) div 60 = minute t"
    using assms by (simp add: valid_time_def)
  have s: "(hour t * 3600 + (minute t * 60 + second t)) mod 60 = second t"
  proof -
    have "hour t * 3600 + (minute t * 60 + second t) = 60 * (hour t * 60 + minute t) + second t"
      by (simp add: algebra_simps)
    then have "(hour t * 3600 + (minute t * 60 + second t)) mod 60 = second t mod 60"
      by (simp only: mod_mult_self4)
    then show ?thesis using assms by (simp add: valid_time_def)
  qed
  show ?thesis
    using h r m s by (simp add: time_of_seconds_def seconds_of_time_def add.assoc)
qed

lemma valid_time_of_seconds:
  assumes "0 \<le> r" "r < 86400"
  shows "valid_time (time_of_seconds r)"
proof -
  have "r div 3600 \<le> 23" using assms by simp
  moreover have "0 \<le> r div 3600" using assms by simp
  moreover have "0 \<le> r mod 3600 div 60" by simp
  moreover have "r mod 3600 div 60 \<le> 59"
  proof -
    have "r mod 3600 < 3600" by simp
    then show ?thesis by simp
  qed
  ultimately show ?thesis by (simp add: valid_time_def time_of_seconds_def)
qed

subsection \<open>Dates\<close>

lemma month_cases:
  "1 \<le> m \<Longrightarrow> m \<le> 12 \<Longrightarrow> m \<in> {1, 2, 3, 4, 5, 6, 7, 8, 9, 10, 11, 12 :: int}"
  by simp arith

lemma days_in_month_bounds:
  assumes "1 \<le> m" "m \<le> 12"
  shows "28 \<le> days_in_month y m \<and> days_in_month y m \<le> 31"
  using month_cases[OF assms]
  by (auto simp: days_in_month_def DAYS_IN_MONTH_def)

lemma days_in_december: "days_in_month y 12 = 31"
  by (simp add: days_in_month_def DAYS_IN_MONTH_def)

lemma shift_days_0: "shift_days d 0 = Inr d"
  by simp

lemma shift_days_1: "shift_days d 1 = next_day d"
  by (simp split: sum.splits)

lemma shift_days_m1: "shift_days d (- 1) = prev_day d"
  by (simp split: sum.splits)

lemma next_day_valid:
  assumes "valid_date d" "next_day d = Inr d'"
  shows "valid_date d'"
  using assms days_in_month_bounds[of "month d + 1" "year d"] days_in_month_bounds[of 1 "year d + 1"]
  by (auto simp: next_day_def valid_date_def MAXYEAR_def MINYEAR_def split: if_splits)

lemma prev_day_valid:
  assumes "valid_date d" "prev_day d = Inr d'"
  shows "valid_date d'"
  using assms days_in_month_bounds[of "month d - 1" "year d"] days_in_december[of "year d - 1"]
  by (auto simp: prev_day_def valid_date_def MAXYEAR_def MINYEAR_def split: if_splits)

lemma prev_day_next_day:
  assumes "valid_date d" "next_day d = Inr d'"
  shows "prev_day d' = Inr d"
  using assms days_in_december[of "year d"]
  by (auto simp: next_day_def prev_day_def valid_date_def MAXYEAR_def MINYEAR_def
      split: if_splits)

lemma next_day_prev_day:
  assumes "valid_date d" "prev_day d = Inr d'"
  shows "next_day d' = Inr d"
  using assms days_in_december[of "year d - 1"] days_in_month_bounds[of "month d - 1" "year d"]
  by (auto simp: next_day_def prev_day_def valid_date_def MAXYEAR_def MINYEAR_def
      split: if_splits)

lemma next_day_defined:
  assumes "valid_date d" "d \<noteq> \<lparr>year = 9999, month = 12, day = 31\<rparr>"
  shows "\<exists>d'. next_day d = Inr d'"
  using assms days_in_december[of "year d"]
  by (cases d) (auto simp: next_day_def valid_date_def MAXYEAR_def MINYEAR_def)

lemma prev_day_defined:
  assumes "valid_date d" "d \<noteq> \<lparr>year = 1, month = 1, day = 1\<rparr>"
  shows "\<exists>d'. prev_day d = Inr d'"
  using assms
  by (cases d) (auto simp: prev_day_def valid_date_def MAXYEAR_def MINYEAR_def)

lemma next_day_last: "next_day \<lparr>year = 9999, month = 12, day = 31\<rparr> = Inl OverflowError"
  by (simp add: next_day_def MAXYEAR_def days_in_december)

lemma prev_day_first: "prev_day \<lparr>year = 1, month = 1, day = 1\<rparr> = Inl OverflowError"
  by (simp add: prev_day_def MINYEAR_def)

lemma prev_day_less:
  assumes "valid_date d" "prev_day d = Inr d'"
  shows "(year d', month d', day d') < (year d, month d, day d)"
  using assms
  by (auto simp: prev_day_def valid_date_def split: if_splits)

subsection \<open>Adding and subtracting the offset\<close>

lemma IST_OFFSET_fields: "IST_OFFSET = \<lparr>days = 0, seconds = 19800\<rparr>"
  by (simp add: IST_OFFSET_def mk_timedelta_def)

lemma neg_IST_OFFSET: "neg_timedelta IST_OFFSET = \<lparr>days = - 1, seconds = 66600\<rparr>"
  by (simp add: IST_OFFSET_fields neg_timedelta_def)

lemma slot_delta_fields: "mk_timedelta 0 0 SLOT_MINUTES = \<lparr>days = 0, seconds = 1800\<rparr>"
  by (simp add: SLOT_MINUTES_def mk_timedelta_def)

lemma one_day_fields: "mk_timedelta 1 0 0 = \<lparr>days = 1, seconds = 0\<rparr>"
  by (simp add: mk_timedelta_def)

lemma datetime_add_same_day:
  assumes "days td = 0" "0 \<le> seconds_of_time (time_part dt) + seconds td"
    "seconds_of_time (time_part dt) + seconds td < 86400"
  shows "datetime_add dt td =
           Inr \<lparr>date_part = date_part dt,
                time_part = time_of_seconds (seconds_of_time (time_part dt) + seconds td)\<rparr>"
  using assms by (simp add: datetime_add_def Let_def)

lemma to_utc_from_ist_same_day:
  assumes "valid_time t" "19800 \<le> seconds_of_time t"
  shows "to_utc_from_ist date_dt t =
           Inr \<lparr>date_part = date_part date_dt,
                time_part = time_of_seconds (seconds_of_time t - 19800)\<rparr>"
proof -
  let ?total = "seconds_of_time t + 66600"
  define x where "x = seconds_of_time t - 19800"
  have x: "0 \<le> x" "x < 86400"
    using assms seconds_of_time_bounds[of t] by (auto simp: x_def)
  have tx: "?total = x + 86400" by (simp add: x_def)
  have d: "?total div 86400 = 1"
    unfolding tx using x by simp
  have "(x + 86400) mod 86400 = x"
    using x by simp
  then have m: "?total mod 86400 = seconds_of_time t - 19800"
    unfolding tx by (simp only: x_def)
  show ?thesis
    by (simp add: to_utc_from_ist_def datetime_sub_def neg_IST_OFFSET datetime_add_def
        combine_def Let_def d m)
qed

lemma to_utc_from_ist_day_before:
  assumes "valid_time t" "seconds_of_time t < 19800"
  shows "to_utc_from_ist date_dt t =
           (case prev_day (date_part date_dt) of
              Inl e \<Rightarrow> Inl e
            | Inr d' \<Rightarrow> Inr \<lparr>date_part = d',
                            time_part = time_of_seconds (seconds_of_time t + 66600)\<rparr>)"
proof -
  let ?total = "seconds_of_time t + 66600"
  have b: "0 \<le> ?total" "?total < 86400"
    using assms seconds_of_time_bounds[of t] by auto
  have d: "?total div 86400 = 0" and m: "?total mod 86400 = ?total"
    using b by simp_all
  show ?thesis
    by (simp add: to_utc_from_ist_def datetime_sub_def neg_IST_OFFSET datetime_add_def
        combine_def Let_def d m shift_days_m1 del: shift_days.simps split: sum.splits)
qed

lemma add_offset_back:
  assumes "valid_time t" "19800 \<le> seconds_of_time t"
  shows "datetime_add \<lparr>date_part = d, time_part = time_of_seconds (seconds_of_time t - 19800)\<rparr>
           IST_OFFSET = Inr (combine d t)"
proof -
  have b: "seconds_of_time t < 86400" using assms seconds_of_time_bounds[of t] by auto
  show ?thesis
    using assms b
    by (simp add: datetime_add_same_day IST_OFFSET_fields seconds_of_time_of_seconds
        time_of_seconds_of_time combine_def)
qed

lemma add_slot_minutes:
  assumes "0 \<le> r" "r + 1800 < 86400"
  shows "datetime_add \<lparr>date_part = d, time_part = time_of_seconds r\<rparr>
           (mk_timedelta 0 0 SLOT_MINUTES) =
         Inr \<lparr>date_part = d, time_part = time_of_seconds (r + 1800)\<rparr>"
  using assms
  by (simp add: datetime_add_same_day slot_delta_fields seconds_of_time_of_seconds)

subsection \<open>Zero-padded decimal texts\<close>

declare digits.simps [simp del]

lemma digit_cases: "n < 10 \<Longrightarrow> n \<in> {0, 1, 2, 3, 4, 5, 6, 7, 8, 9 :: nat}"
  by (simp add: numeral_eq_Suc less_Suc_eq)

lemma of_char_digit_char: "n < 10 \<Longrightarrow> (of_char (digit_char n) :: nat) = 48 + n"
  using digit_cases[of n] by (auto simp: digit_char_def)

lemma is_digit_digit_char: "n < 10 \<Longrightarrow> is_digit (digit_char n)"
  using digit_cases[of n] by (auto simp: digit_char_def is_digit_def)

lemma digit_val_digit_char: "n < 10 \<Longrightarrow> digit_val (digit_char n) = int n"
  by (simp add: digit_val_def of_char_digit_char)

lemma digit_char_eq_iff: "i < 10 \<Longrightarrow> j < 10 \<Longrightarrow> digit_char i = digit_char j \<longleftrightarrow> i = j"
proof
  assume b: "i < 10" "j < 10" and e: "digit_char i = digit_char j"
  have "(of_char (digit_char i) :: nat) = of_char (digit_char j)" using e by simp
  then show "i = j" using b by (simp add: of_char_digit_char)
qed simp

lemma str_lt_digit_Cons:
  "i < 10 \<Longrightarrow> j < 10 \<Longrightarrow>
   str_lt (digit_char i # xs) (digit_char j # ys) = (i < j \<or> i = j \<and> str_lt xs ys)"
  by (simp add: of_char_digit_char digit_char_eq_iff)

lemma str_lt_append:
  "length u = length v \<Longrightarrow> str_lt (u @ x) (v @ y) = (str_lt u v \<or> u = v \<and> str_lt x y)"
proof (induction u v rule: list_induct2)
  case Nil
  then show ?case by simp
next
  case (Cons a u b v)
  then show ?case by auto
qed

lemma str_lt_irrefl: "\<not> str_lt s s"
  by (induction s) auto

lemma digits_nonempty: "digits n \<noteq> []"
  by (subst digits.simps) simp

lemma zfill_digits_1: "n < 10 \<Longrightarrow> zfill (Suc 0) (digits n) = [digit_char n]"
  by (subst digits.simps) (simp add: zfill_def)

lemma zfill_digits_Suc:
  assumes "0 < w"
  shows "zfill (Suc w) (digits n) = zfill w (digits (n div 10)) @ [digit_char (n mod 10)]"
proof (cases "n < 10")
  case True
  have z: "digits 0 = [digit_char 0]" by (subst digits.simps) simp
  have "replicate w CHR ''0'' = replicate (w - 1) CHR ''0'' @ [CHR ''0'']"
    using assms by (cases w) (simp_all add: replicate_append_same)
  then show ?thesis
    using True by (subst digits.simps) (simp add: zfill_def z digit_char_def)
next
  case False
  then show ?thesis
    by (subst digits.simps) (simp add: zfill_def Suc_diff_le)
qed

lemma length_zfill_digits:
  "0 < w \<Longrightarrow> n < 10 ^ w \<Longrightarrow> length (zfill w (digits n)) = w"
proof (induction w arbitrary: n rule: nat_induct_non_zero)
  case 1
  then show ?case by (simp add: zfill_digits_1)
next
  case (Suc w)
  have "n div 10 < 10 ^ w" using Suc.prems by (simp add: less_mult_imp_div_less)
  then show ?case using Suc.IH[of "n div 10"] Suc.hyps by (simp add: zfill_digits_Suc)
qed

lemma lex_div_mod_10:
  "(a < b) = (a div 10 < b div 10 \<or> a div 10 = b div 10 \<and> a mod 10 < b mod 10)" for a b :: nat
proof -
  have a: "a = 10 * (a div 10) + a mod 10" and b: "b = 10 * (b div 10) + b mod 10" by simp_all
  have ma: "a mod 10 < 10" and mb: "b mod 10 < 10" by simp_all
  show ?thesis using a b ma mb by linarith
qed

lemma eq_div_mod_10:
  "(a = b) = (a div 10 = b div 10 \<and> a mod 10 = b mod 10)" for a b :: nat
proof
  assume "a = b"
  then show "a div 10 = b div 10 \<and> a mod 10 = b mod 10" by simp
next
  assume h: "a div 10 = b div 10 \<and> a mod 10 = b mod 10"
  have "a = 10 * (a div 10) + a mod 10" by simp
  also have "\<dots> = 10 * (b div 10) + b mod 10" using h by simp
  also have "\<dots> = b" by simp
  finally show "a = b" .
qed

lemma zfill_digits_order:
  "0 < w \<Longrightarrow> a < 10 ^ w \<Longrightarrow> b < 10 ^ w \<Longrightarrow>
     str_lt (zfill w (digits a)) (zfill w (digits b)) = (a < b)
     \<and> (zfill w (digits a) = zfill w (digits b)) = (a = b)"
proof (induction w arbitrary: a b rule: nat_induct_non_zero)
  case 1
  then show ?case by (simp add: zfill_digits_1 of_char_digit_char digit_char_eq_iff)
next
  case (Suc w)
  have a': "a div 10 < 10 ^ w" and b': "b div 10 < 10 ^ w"
    using Suc.prems by (simp_all add: less_mult_imp_div_less)
  have len: "length (zfill w (digits (a div 10))) = length (zfill w (digits (b div 10)))"
    using a' b' Suc.hyps by (simp add: length_zfill_digits)
  have lt: "str_lt (zfill (Suc w) (digits a)) (zfill (Suc w) (digits b)) = (a < b)"
    using Suc.IH[OF a' b'] Suc.hyps lex_div_mod_10[of a b]
    by (simp add: zfill_digits_Suc str_lt_append[OF len] of_char_digit_char)
  have eq: "(zfill (Suc w) (digits a) = zfill (Suc w) (digits b)) = (a = b)"
    using Suc.IH[OF a' b'] Suc.hyps eq_div_mod_10[of a b]
    by (simp add: zfill_digits_Suc digit_char_eq_iff)
  show ?case using lt eq by simp
qed

lemma digits_to_int_zfill:
  "0 < w \<Longrightarrow> n < 10 ^ w \<Longrightarrow> digits_to_int (zfill w (digits n)) = Some (int n)"
proof (induction w arbitrary: n rule: nat_induct_non_zero)
  case 1
  then show ?case
    by (simp add: zfill_digits_1 digits_to_int_def is_digit_digit_char digit_val_digit_char)
next
  case (Suc w)
  have n': "n div 10 < 10 ^ w" using Suc.prems by (simp add: less_mult_imp_div_less)
  have ih: "digits_to_int (zfill w (digits (n div 10))) = Some (int (n div 10))"
    using Suc.IH[OF n'] .
  have "n = 10 * (n div 10) + n mod 10" by simp
  then have "int n = int (n div 10) * 10 + int (n mod 10)"
    by (metis mult.commute of_nat_add of_nat_mult of_nat_numeral)
  then show ?case
    using ih Suc.hyps
    by (auto simp: zfill_digits_Suc digits_to_int_def is_digit_digit_char digit_val_digit_char
        split: if_splits)
qed

subsection \<open>Timestamp texts\<close>

lemma fmt_d_nonneg: "0 \<le> k \<Longrightarrow> fmt_d w k = zfill w (digits (nat k))"
  by (simp add: fmt_d_def)

lemma fmt_d_2:
  assumes "0 \<le> a" "a < 100" "0 \<le> b" "b < 100"
  shows "length (fmt_d 2 a) = 2" "str_lt (fmt_d 2 a) (fmt_d 2 b) = (a < b)"
    "(fmt_d 2 a = fmt_d 2 b) = (a = b)" "digits_to_int (fmt_d 2 a) = Some a"
proof -
  have na: "nat a < 10 ^ 2" and nb: "nat b < 10 ^ 2" using assms by simp_all
  show "length (fmt_d 2 a) = 2"
    using length_zfill_digits[OF _ na] assms by (simp add: fmt_d_nonneg)
  have "str_lt (zfill 2 (digits (nat a))) (zfill 2 (digits (nat b))) = (nat a < nat b)"
    using zfill_digits_order[OF _ na nb] by simp
  also have "\<dots> = (a < b)" using assms by auto
  finally show "str_lt (fmt_d 2 a) (fmt_d 2 b) = (a < b)"
    using assms by (simp add: fmt_d_nonneg)
  have "(zfill 2 (digits (nat a)) = zfill 2 (digits (nat b))) = (nat a = nat b)"
    using zfill_digits_order[OF _ na nb] by simp
  also have "\<dots> = (a = b)" using assms by auto
  finally show "(fmt_d 2 a = fmt_d 2 b) = (a = b)"
    using assms by (simp add: fmt_d_nonneg)
  show "digits_to_int (fmt_d 2 a) = Some a"
    using digits_to_int_zfill[OF _ na] assms by (simp add: fmt_d_nonneg)
qed

lemma fmt_d_4:
  assumes "0 \<le> a" "a < 10000" "0 \<le> b" "b < 10000"
  shows "length (fmt_d 4 a) = 4" "str_lt (fmt_d 4 a) (fmt_d 4 b) = (a < b)"
    "(fmt_d 4 a = fmt_d 4 b) = (a = b)" "digits_to_int (fmt_d 4 a) = Some a"
proof -
  have na: "nat a < 10 ^ 4" and nb: "nat b < 10 ^ 4" using assms by simp_all
  show "length (fmt_d 4 a) = 4"
    using length_zfill_digits[OF _ na] assms by (simp add: fmt_d_nonneg)
  have "str_lt (zfill 4 (digits (nat a))) (zfill 4 (digits (nat b))) = (nat a < nat b)"
    using zfill_digits_order[OF _ na nb] by simp
  also have "\<dots> = (a < b)" using assms by auto
  finally show "str_lt (fmt_d 4 a) (fmt_d 4 b) = (a < b)"
    using assms by (simp add: fmt_d_nonneg)
  have "(zfill 4 (digits (nat a)) = zfill 4 (digits (nat b))) = (nat a = nat b)"
    using zfill_digits_order[OF _ na nb] by simp
  also have "\<dots> = (a = b)" using assms by auto
  finally show "(fmt_d 4 a = fmt_d 4 b) = (a = b)"
    using assms by (simp add: fmt_d_nonneg)
  show "digits_to_int (fmt_d 4 a) = Some a"
    using digits_to_int_zfill[OF _ na] assms by (simp add: fmt_d_nonneg)
qed

lemma valid_datetime_ranges:
  assumes "valid_datetime dt"
  shows "0 \<le> year (date_part dt)" "year (date_part dt) < 10000"
    "0 \<le> month (date_part dt)" "month (date_part dt) < 100"
    "0 \<le> day (date_part dt)" "day (date_part dt) < 100"
    "0 \<le> hour (time_part dt)" "hour (time_part dt) < 100"
    "0 \<le> minute (time_part dt)" "minute (time_part dt) < 100"
    "0 \<le> second (time_part dt)" "second (time_part dt) < 100"
  using assms days_in_month_bounds[of "month (date_part dt)" "year (date_part dt)"]
  by (auto simp: valid_datetime_def valid_date_def valid_time_def MINYEAR_def MAXYEAR_def)

lemma isoformat_lt:
  assumes a: "valid_datetime a" and b: "valid_datetime b"
  shows "str_lt (isoformat a) (isoformat b) = dt_lt a b"
proof -
  note ra = valid_datetime_ranges[OF a] and rb = valid_datetime_ranges[OF b]
  note y = fmt_d_4[OF ra(1,2) rb(1,2)]
  note m = fmt_d_2[OF ra(3,4) rb(3,4)]
  note d = fmt_d_2[OF ra(5,6) rb(5,6)]
  note h = fmt_d_2[OF ra(7,8) rb(7,8)]
  note mi = fmt_d_2[OF ra(9,10) rb(9,10)]
  note s = fmt_d_2[OF ra(11,12) rb(11,12)]
  note yb = fmt_d_4(1)[OF rb(1,2) rb(1,2)]
  note mb = fmt_d_2(1)[OF rb(3,4) rb(3,4)]
  note db = fmt_d_2(1)[OF rb(5,6) rb(5,6)]
  note hb = fmt_d_2(1)[OF rb(7,8) rb(7,8)]
  note mib = fmt_d_2(1)[OF rb(9,10) rb(9,10)]
  have "str_lt (isoformat a) (isoformat b) =
        (year (date_part a) < year (date_part b) \<or> year (date_part a) = year (date_part b) \<and>
         (month (date_part a) < month (date_part b) \<or> month (date_part a) = month (date_part b) \<and>
          (day (date_part a) < day (date_part b) \<or> day (date_part a) = day (date_part b) \<and>
           (hour (time_part a) < hour (time_part b) \<or> hour (time_part a) = hour (time_part b) \<and>
            (minute (time_part a) < minute (time_part b) \<or> minute (time_part a) = minute (time_part b) \<and>
             second (time_part a) < second (time_part b))))))"
    by (simp add: isoformat_def str_lt_append y m d h mi s yb mb db hb mib)
  also have "\<dots> = dt_lt a b"
    by (auto simp: dt_lt_def dt_key_def)
  finally show ?thesis .
qed

text \<open>The parser \<open>fromisoformat_seconds\<close> is an inverse of \<open>isoformat\<close>.\<close>

lemma list_len_2: "length xs = 2 \<Longrightarrow> \<exists>a b. xs = [a, b]"
  by (auto simp: length_Suc_conv numeral_2_eq_2)

lemma list_len_4: "length xs = 4 \<Longrightarrow> \<exists>a b c d. xs = [a, b, c, d]"
  by (auto simp: length_Suc_conv numeral_eq_Suc)

lemma datetime_eta:
  "\<lparr>date_part = \<lparr>year = year (date_part dt), month = month (date_part dt),
                 day = day (date_part dt)\<rparr>,
    time_part = \<lparr>hour = hour (time_part dt), minute = minute (time_part dt),
                 second = second (time_part dt)\<rparr>\<rparr> = dt"
  by (intro datetime.equality date.equality time.equality) simp_all

lemma fromisoformat_seconds_isoformat:
  assumes v: "valid_datetime dt"
  shows "fromisoformat_seconds (isoformat dt) = Some dt"
proof -
  note r = valid_datetime_ranges[OF v]
  note y = fmt_d_4[OF r(1,2) r(1,2)]
  note m = fmt_d_2[OF r(3,4) r(3,4)]
  note d = fmt_d_2[OF r(5,6) r(5,6)]
  note h = fmt_d_2[OF r(7,8) r(7,8)]
  note mi = fmt_d_2[OF r(9,10) r(9,10)]
  note s = fmt_d_2[OF r(11,12) r(11,12)]
  obtain y1 y2 y3 y4 where Y: "fmt_d 4 (year (date_part dt)) = [y1, y2, y3, y4]"
    using list_len_4[OF y(1)] by blast
  obtain m1 m2 where M: "fmt_d 2 (month (date_part dt)) = [m1, m2]"
    using list_len_2[OF m(1)] by blast
  obtain d1 d2 where D: "fmt_d 2 (day (date_part dt)) = [d1, d2]"
    using list_len_2[OF d(1)] by blast
  obtain h1 h2 where H: "fmt_d 2 (hour (time_part dt)) = [h1, h2]"
    using list_len_2[OF h(1)] by blast
  obtain i1 i2 where MI: "fmt_d 2 (minute (time_part dt)) = [i1, i2]"
    using list_len_2[OF mi(1)] by blast
  obtain s1 s2 where S: "fmt_d 2 (second (time_part dt)) = [s1, s2]"
    using list_len_2[OF s(1)] by blast
  have iso: "isoformat dt = [y1, y2, y3, y4, CHR ''-'', m1, m2, CHR ''-'', d1, d2, CHR ''T'',
                             h1, h2, CHR '':'', i1, i2, CHR '':'', s1, s2]"
    by (simp add: isoformat_def Y M D H MI S)
  have vals: "digits_to_int [y1, y2, y3, y4] = Some (year (date_part dt))"
    "digits_to_int [m1, m2] = Some (month (date_part dt))"
    "digits_to_int [d1, d2] = Some (day (date_part dt))"
    "digits_to_int [h1, h2] = Some (hour (time_part dt))"
    "digits_to_int [i1, i2] = Some (minute (time_part dt))"
    "digits_to_int [s1, s2] = Some (second (time_part dt))"
    using y(4) m(4) d(4) h(4) mi(4) s(4) by (simp_all only: Y M D H MI S)
  show ?thesis
    unfolding iso fromisoformat_seconds_def using v
    by (simp add: vals Let_def datetime_eta)
qed

lemma inverts_isoformat_seconds: "inverts_isoformat fromisoformat_seconds"
  by (simp add: inverts_isoformat_def fromisoformat_seconds_isoformat)

subsection \<open>The steps of \<open>create_booking\<close>\<close>

lemma ist_date_from_str_valid:
  assumes "ist_date_from_str int_of s = Inr dt"
  shows "valid_date (date_part dt)" "time_part dt = midnight"
  using assms
  by (auto simp: ist_date_from_str_def mk_datetime_def Let_def midnight_def
      split: list.splits option.splits if_splits)

lemma parse_time_valid:
  assumes "parse_time int_of s = Some t"
  shows "valid_time t" "second t = 0"
  using assms
  by (auto simp: parse_time_def mk_time_def Let_def split: list.splits option.splits if_splits)

lemma booking_interval:
  assumes vd: "valid_date (date_part date_dt)" and vt: "valid_time t_obj"
    and hrs: "9 \<le> hour t_obj" "hour t_obj < 17"
  shows "\<exists>start_utc end_utc.
           to_utc_from_ist date_dt t_obj = Inr start_utc
         \<and> datetime_add start_utc (mk_timedelta 0 0 SLOT_MINUTES) = Inr end_utc
         \<and> valid_datetime start_utc \<and> valid_datetime end_utc
         \<and> date_part start_utc = date_part date_dt \<and> date_part end_utc = date_part date_dt
         \<and> time_part start_utc = time_of_seconds (seconds_of_time t_obj - 19800)
         \<and> time_part end_utc = time_of_seconds (seconds_of_time t_obj - 18000)
         \<and> datetime_add start_utc IST_OFFSET = Inr (combine (date_part date_dt) t_obj)"
proof -
  let ?r = "seconds_of_time t_obj - 19800"
  let ?s = "\<lparr>date_part = date_part date_dt, time_part = time_of_seconds ?r\<rparr>"
  let ?e = "\<lparr>date_part = date_part date_dt, time_part = time_of_seconds (?r + 1800)\<rparr>"
  have lo: "32400 \<le> seconds_of_time t_obj" and hi: "seconds_of_time t_obj < 61200"
    using vt hrs by (auto simp: seconds_of_time_def valid_time_def)
  have s: "to_utc_from_ist date_dt t_obj = Inr ?s"
    using to_utc_from_ist_same_day[OF vt, of date_dt] lo by simp
  have e: "datetime_add ?s (mk_timedelta 0 0 SLOT_MINUTES) = Inr ?e"
    using add_slot_minutes[of ?r "date_part date_dt"] lo hi by simp
  have vs: "valid_datetime ?s"
    using vd valid_time_of_seconds[of ?r] lo hi by (simp add: valid_datetime_def)
  have ve: "valid_datetime ?e"
    using vd valid_time_of_seconds[of "?r + 1800"] lo hi by (simp add: valid_datetime_def)
  have rt: "datetime_add ?s IST_OFFSET = Inr (combine (date_part date_dt) t_obj)"
    using add_offset_back[OF vt, of "date_part date_dt"] lo by simp
  show ?thesis
    using s e vs ve rt by (intro exI[of _ ?s] exI[of _ ?e]) simp
qed

lemma create_booking_steps:
  assumes "ist_date_from_str int_of (BookingRequest.date payload) = Inr date_dt"
    and "weekday date_dt < 5"
    and "parse_time int_of (BookingRequest.time payload) = Some t_obj"
    and "9 \<le> hour t_obj" "hour t_obj < 17"
    and "to_utc_from_ist date_dt t_obj = Inr start_utc"
    and "datetime_add start_utc (mk_timedelta 0 0 SLOT_MINUTES) = Inr end_utc"
  shows "create_booking int_of payload db =
     (case find (conflicts (isoformat start_utc) (isoformat end_utc)) (booking db) of
        Some _ \<Rightarrow> (Inl conflict_error, db\<lparr>ops := ops db @ [FindOne]\<rparr>)
      | None \<Rightarrow>
          (Inr \<lparr>status = ''confirmed'',
                BookingResponse.date = BookingRequest.date payload,
                BookingResponse.time = BookingRequest.time payload,
                timezone = ''IST''\<rparr>,
           \<lparr>booking = booking db @
              [\<lparr>Booking.name = BookingRequest.name payload,
                Booking.email = BookingRequest.email payload,
                Booking.phone = BookingRequest.phone payload,
                date_ist = BookingRequest.date payload,
                start_time_ist = BookingRequest.time payload,
                start_utc_iso = isoformat start_utc,
                end_utc_iso = isoformat end_utc,
                Booking.notes' = BookingRequest.notes' payload\<rparr>],
            ops = ops db @ [FindOne, InsertOne]\<rparr>))"
  using assms
  by (simp add: create_booking_def START_HOUR_IST_def END_HOUR_IST_def col_find_one_def
      create_document_def split: option.splits)

subsection \<open>Worked examples\<close>

lemma date_2024_06_10:
  "ist_date_from_str ascii_int ''2024-06-10'' =
     Inr \<lparr>date_part = \<lparr>year = 2024, month = 6, day = 10\<rparr>, time_part = midnight\<rparr>"
  by code_simp

lemma weekday_2024_06_10:
  "weekday \<lparr>date_part = \<lparr>year = 2024, month = 6, day = 10\<rparr>, time_part = midnight\<rparr> = 0"
  by code_simp

lemma parse_time_10_00: "parse_time ascii_int ''10:00'' = Some \<lparr>hour = 10, minute = 0, second = 0\<rparr>"
  by code_simp

lemma book_10_00:
  "create_booking ascii_int (example_request ''2024-06-10'' ''10:00'') empty_db =
     (Inr \<lparr>status = ''confirmed'', BookingResponse.date = ''2024-06-10'',
           BookingResponse.time = ''10:00'', timezone = ''IST''\<rparr>,
      \<lparr>booking = [\<lparr>Booking.name = ''Asha'', email = ''a@x.com'', phone = None,
                    date_ist = ''2024-06-10'', start_time_ist = ''10:00'',
                    start_utc_iso = ''2024-06-10T04:30:00'',
                    end_utc_iso = ''2024-06-10T05:00:00'', notes' = None\<rparr>],
       ops = [FindOne, InsertOne]\<rparr>)"
  by code_simp

lemma date_2024_06_08:
  "ist_date_from_str ascii_int ''2024-06-08'' =
     Inr \<lparr>date_part = \<lparr>year = 2024, month = 6, day = 8\<rparr>, time_part = midnight\<rparr>"
  by code_simp

lemma parse_time_08_30: "parse_time ascii_int ''08:30'' = Some \<lparr>hour = 8, minute = 30, second = 0\<rparr>"
  by code_simp

lemma parse_time_17_00: "parse_time ascii_int ''17:00'' = Some \<lparr>hour = 17, minute = 0, second = 0\<rparr>"
  by code_simp

lemma parse_time_09_15: "parse_time ascii_int ''09:15'' = Some \<lparr>hour = 9, minute = 15, second = 0\<rparr>"
  by code_simp

lemma parse_time_09_30: "parse_time ascii_int ''09:30'' = Some \<lparr>hour = 9, minute = 30, second = 0\<rparr>"
  by code_simp

lemma book_09_15:
  "create_booking ascii_int (example_request ''2024-06-10'' ''09:15'') empty_db =
     (Inr \<lparr>status = ''confirmed'', BookingResponse.date = ''2024-06-10'',
           BookingResponse.time = ''09:15'', timezone = ''IST''\<rparr>,
      \<lparr>booking = [\<lparr>Booking.name = ''Asha'', email = ''a@x.com'', phone = None,
                    date_ist = ''2024-06-10'', start_time_ist = ''09:15'',
                    start_utc_iso = ''2024-06-10T03:45:00'',
                    end_utc_iso = ''2024-06-10T04:15:00'', notes' = None\<rparr>],
       ops = [FindOne, InsertOne]\<rparr>)"
  by code_simp

lemma ist_date_from_str_error:
  "ist_date_from_str int_of s = Inl e \<Longrightarrow> e = invalid_date_error"
  by (auto simp: ist_date_from_str_def split: list.splits option.splits)

lemma book_10_00_twice:
  "create_booking ascii_int (example_request ''2024-06-10'' ''10:00'')
     \<lparr>booking = [\<lparr>Booking.name = ''Asha'', email = ''a@x.com'', phone = None,
                   date_ist = ''2024-06-10'', start_time_ist = ''10:00'',
                   start_utc_iso = ''2024-06-10T04:30:00'',
                   end_utc_iso = ''2024-06-10T05:00:00'', notes' = None\<rparr>],
      ops = [FindOne, InsertOne]\<rparr> =
     (Inl conflict_error,
      \<lparr>booking = [\<lparr>Booking.name = ''Asha'', email = ''a@x.com'', phone = None,
                    date_ist = ''2024-06-10'', start_time_ist = ''10:00'',
                    start_utc_iso = ''2024-06-10T04:30:00'',
                    end_utc_iso = ''2024-06-10T05:00:00'', notes' = None\<rparr>],
       ops = [FindOne, InsertOne, FindOne]\<rparr>)"
  by code_simp

lemma find_append_new:
  "find P xs = None \<Longrightarrow> P x \<Longrightarrow> find P (xs @ [x]) = Some x"
  by (induction xs) (auto split: if_splits)

lemma find_None_iff_Ball: "(find P xs = None) = (\<forall>x\<in>set xs. \<not> P x)"
  by (induction xs) auto

lemma example_request_fields:
  "BookingRequest.date (example_request d t) = d"
  "BookingRequest.time (example_request d t) = t"
  by (simp_all add: example_request_def)

lemma time_order_seconds:
  assumes "valid_time x" "valid_time y"
  shows "((hour x, minute x, second x) < (hour y, minute y, second y))
           = (seconds_of_time x < seconds_of_time y)"
  using assms by (auto simp: seconds_of_time_def valid_time_def)

lemma dt_lt_same_date:
  assumes "date_part a = date_part b" "valid_time (time_part a)" "valid_time (time_part b)"
  shows "dt_lt a b = (seconds_of_time (time_part a) < seconds_of_time (time_part b))"
  using time_order_seconds[OF assms(2,3)] assms(1)
  by (auto simp: dt_lt_def dt_key_def)

lemma slot_start_before_end:
  assumes vd: "valid_date (date_part date_dt)" and vt: "valid_time t_obj"
    and hrs: "9 \<le> hour t_obj" "hour t_obj < 17"
    and s: "to_utc_from_ist date_dt t_obj = Inr start_utc"
    and e: "datetime_add start_utc (mk_timedelta 0 0 SLOT_MINUTES) = Inr end_utc"
  shows "dt_lt start_utc end_utc" "valid_datetime start_utc" "valid_datetime end_utc"
proof -
  obtain s' e' where
    s': "to_utc_from_ist date_dt t_obj = Inr s'"
    and e': "datetime_add s' (mk_timedelta 0 0 SLOT_MINUTES) = Inr e'"
    and v: "valid_datetime s'" "valid_datetime e'"
    and d: "date_part s' = date_part date_dt" "date_part e' = date_part date_dt"
    and t: "time_part s' = time_of_seconds (seconds_of_time t_obj - 19800)"
      "time_part e' = time_of_seconds (seconds_of_time t_obj - 18000)"
    using booking_interval[OF vd vt hrs] by blast
  have eq: "s' = start_utc" "e' = end_utc" using s s' e e' by simp_all
  show "valid_datetime start_utc" "valid_datetime end_utc" using v eq by simp_all
  have "dt_lt s' e'"
    using dt_lt_same_date[of s' e'] v d t
    by (simp add: valid_datetime_def seconds_of_time_of_seconds)
  then show "dt_lt start_utc end_utc" using eq by simp
qed

subsection \<open>The steps of \<open>get_availability\<close>\<close>

lemma slot_loop_grid:
  "slot_loop d \<lparr>hour = START_HOUR_IST, minute = 0, second = 0\<rparr> [] = Inr full_grid"
  by (simp add: START_HOUR_IST_def END_HOUR_IST_def SLOT_MINUTES_def datetime_add_def
      combine_def mk_timedelta_def seconds_of_time_def time_of_seconds_def Let_def mk_time_def
      valid_time_def hhmm_def fmt_d_def zfill_def digits.simps digit_char_def full_grid_def)

lemma get_availability_steps:
  assumes "ist_date_from_str int_of date_str = Inr date_dt"
    and "weekday date_dt < 5"
    and "to_utc_from_ist date_dt midnight = Inr day_start_utc"
    and "datetime_add date_dt (mk_timedelta 1 0 0) = Inr next_dt"
    and "to_utc_from_ist next_dt midnight = Inr day_end_utc"
  shows "get_availability int_of fromiso date_str db =
     (Inr \<lparr>AvailabilityResponse.date = date_str,
           slots = filter (\<lambda>slot. slot \<notin> mark_taken fromiso
                      (filter (in_window (isoformat day_start_utc) (isoformat day_end_utc))
                         (booking db)) {}) full_grid\<rparr>,
      db\<lparr>ops := ops db @ [Find]\<rparr>)"
  using assms
  by (simp add: get_availability_def slot_loop_grid col_find_def del: slot_loop.simps)

lemma half_past_six: "time_of_seconds 66600 = \<lparr>hour = 18, minute = 30, second = 0\<rparr>"
  by (simp add: time_of_seconds_def)

lemma seconds_of_midnight:
  "seconds_of_time midnight = 0" "valid_time midnight" "time_of_seconds 0 = midnight"
  by (simp_all add: seconds_of_time_def midnight_def valid_time_def time_of_seconds_def)

lemma day_window:
  assumes vd: "valid_date (date_part date_dt)" and mid: "time_part date_dt = midnight"
    and first: "date_part date_dt \<noteq> \<lparr>year = 1, month = 1, day = 1\<rparr>"
    and last: "date_part date_dt \<noteq> \<lparr>year = 9999, month = 12, day = 31\<rparr>"
  shows "\<exists>d_prev next_dt.
           prev_day (date_part date_dt) = Inr d_prev
         \<and> to_utc_from_ist date_dt midnight =
             Inr \<lparr>date_part = d_prev, time_part = \<lparr>hour = 18, minute = 30, second = 0\<rparr>\<rparr>
         \<and> datetime_add date_dt (mk_timedelta 1 0 0) = Inr next_dt
         \<and> to_utc_from_ist next_dt midnight =
             Inr \<lparr>date_part = date_part date_dt,
                  time_part = \<lparr>hour = 18, minute = 30, second = 0\<rparr>\<rparr>"
proof -
  obtain d_prev where p: "prev_day (date_part date_dt) = Inr d_prev"
    using prev_day_defined[OF vd first] by blast
  obtain d_next where n: "next_day (date_part date_dt) = Inr d_next"
    using next_day_defined[OF vd last] by blast
  let ?next = "\<lparr>date_part = d_next, time_part = midnight\<rparr>"
  have s: "to_utc_from_ist date_dt midnight =
             Inr \<lparr>date_part = d_prev, time_part = \<lparr>hour = 18, minute = 30, second = 0\<rparr>\<rparr>"
    using to_utc_from_ist_day_before[of midnight date_dt] p
    by (simp add: seconds_of_midnight half_past_six)
  have a: "datetime_add date_dt (mk_timedelta 1 0 0) = Inr ?next"
    using n
    by (simp add: datetime_add_def one_day_fields mid seconds_of_midnight shift_days_1
        Let_def del: shift_days.simps)
  have e: "to_utc_from_ist ?next midnight =
             Inr \<lparr>date_part = date_part date_dt,
                  time_part = \<lparr>hour = 18, minute = 30, second = 0\<rparr>\<rparr>"
    using to_utc_from_ist_day_before[of midnight ?next] prev_day_next_day[OF vd n]
    by (simp add: seconds_of_midnight half_past_six)
  show ?thesis using p s a e by blast
qed

lemma day_window_first:
  assumes "date_part date_dt = \<lparr>year = 1, month = 1, day = 1\<rparr>"
  shows "to_utc_from_ist date_dt midnight = Inl OverflowError"
  using to_utc_from_ist_day_before[of midnight date_dt] assms
  by (simp add: seconds_of_midnight prev_day_first)

lemma day_window_last:
  assumes "date_part date_dt = \<lparr>year = 9999, month = 12, day = 31\<rparr>"
    and "time_part date_dt = midnight"
  shows "datetime_add date_dt (mk_timedelta 1 0 0) = Inl OverflowError"
  using assms
  by (simp add: datetime_add_def one_day_fields seconds_of_midnight shift_days_1 next_day_last
      Let_def del: shift_days.simps)

lemma mark_taken_iff:
  "x \<in> mark_taken fromiso docs taken \<longleftrightarrow>
     x \<in> taken \<or>
     (\<exists>doc\<in>set docs. \<exists>s e ist_start.
        fromiso (start_utc_iso doc) = Some s \<and> fromiso (end_utc_iso doc) = Some e
      \<and> datetime_add s IST_OFFSET = Inr ist_start
      \<and> x = hhmm (hour (time_part ist_start)) (minute (time_part ist_start)))"
proof (induction docs arbitrary: taken)
  case Nil
  then show ?case by simp
next
  case (Cons doc docs)
  show ?case
  proof (cases "fromiso (start_utc_iso doc)")
    case None
    then show ?thesis using Cons.IH[of taken] by auto
  next
    case s: (Some s)
    show ?thesis
    proof (cases "fromiso (end_utc_iso doc)")
      case None
      then show ?thesis using s Cons.IH[of taken] by auto
    next
      case e: (Some e)
      show ?thesis
      proof (cases "datetime_add s IST_OFFSET")
        case (Inl err)
        then show ?thesis using s e Cons.IH[of taken] by auto
      next
        case (Inr ist_start)
        then show ?thesis
          using s e
            Cons.IH[of "insert (hhmm (hour (time_part ist_start)) (minute (time_part ist_start)))
                           taken"]
          by auto
      qed
    qed
  qed
qed

lemma reads_decimalD:
  assumes "reads_decimal int_of" "s \<noteq> []" "length s \<le> 4300" "list_all is_digit s"
  shows "int_of s = digits_to_int s"
  using assms by (simp add: reads_decimal_def)

lemma parse_time_grid:
  assumes dec: "reads_decimal int_of" and grid: "s \<in> set full_grid"
  shows "parse_time int_of s = parse_time digits_to_int s"
proof -
  have two: "int_of [a, b] = digits_to_int [a, b]" if "is_digit a" "is_digit b" for a b
    using reads_decimalD[OF dec, of "[a, b]"] that by simp
  show ?thesis
    using grid by (auto simp: full_grid_def parse_time_def two is_digit_def)
qed

lemma grid_times_round_trip:
  "list_all (\<lambda>s. map_option (\<lambda>t. hhmm (hour t) (minute t)) (parse_time digits_to_int s) = Some s)
     full_grid"
  by code_simp

lemma grid_time_round_trip:
  assumes "reads_decimal int_of" and "s \<in> set full_grid" and "parse_time int_of s = Some t"
  shows "hhmm (hour t) (minute t) = s"
  using grid_times_round_trip assms parse_time_grid[OF assms(1,2)]
  by (auto simp: list_all_iff)

lemma date_0001_01_01:
  "ist_date_from_str ascii_int ''0001-01-01'' =
     Inr \<lparr>date_part = \<lparr>year = 1, month = 1, day = 1\<rparr>, time_part = midnight\<rparr>"
  by code_simp

lemma weekday_0001_01_01:
  "weekday \<lparr>date_part = \<lparr>year = 1, month = 1, day = 1\<rparr>, time_part = midnight\<rparr> = 0"
  by code_simp

lemma date_9999_12_31:
  "ist_date_from_str ascii_int ''9999-12-31'' =
     Inr \<lparr>date_part = \<lparr>year = 9999, month = 12, day = 31\<rparr>, time_part = midnight\<rparr>"
  by code_simp

lemma weekday_9999_12_31:
  "weekday \<lparr>date_part = \<lparr>year = 9999, month = 12, day = 31\<rparr>, time_part = midnight\<rparr> = 4"
  by code_simp

lemma availability_0001_01_01:
  "get_availability ascii_int fromiso ''0001-01-01'' db = (Inl OverflowError, db)"
  using day_window_first[of "\<lparr>date_part = \<lparr>year = 1, month = 1, day = 1\<rparr>, time_part = midnight\<rparr>"]
  by (simp add: get_availability_def date_0001_01_01 weekday_0001_01_01 slot_loop_grid
      del: slot_loop.simps)

lemma availability_9999_12_31:
  "get_availability ascii_int fromiso ''9999-12-31'' db = (Inl OverflowError, db)"
proof -
  let ?d = "\<lparr>date_part = \<lparr>year = 9999, month = 12, day = 31\<rparr>, time_part = midnight\<rparr>"
  obtain d_prev where p: "prev_day (date_part ?d) = Inr d_prev"
    by (simp add: prev_day_def)
  have s: "to_utc_from_ist ?d midnight =
             Inr \<lparr>date_part = d_prev, time_part = \<lparr>hour = 18, minute = 30, second = 0\<rparr>\<rparr>"
    using to_utc_from_ist_day_before[of midnight ?d] p
    by (simp add: seconds_of_midnight half_past_six)
  show ?thesis
    using day_window_last[of ?d] s
    by (simp add: get_availability_def date_9999_12_31 weekday_9999_12_31 slot_loop_grid
        del: slot_loop.simps)
qed

lemma window_2024_06_10:
  "to_utc_from_ist \<lparr>date_part = \<lparr>year = 2024, month = 6, day = 10\<rparr>, time_part = midnight\<rparr>
     midnight =
   Inr \<lparr>date_part = \<lparr>year = 2024, month = 6, day = 9\<rparr>,
        time_part = \<lparr>hour = 18, minute = 30, second = 0\<rparr>\<rparr>"
  "datetime_add \<lparr>date_part = \<lparr>year = 2024, month = 6, day = 10\<rparr>, time_part = midnight\<rparr>
     (mk_timedelta 1 0 0) =
   Inr \<lparr>date_part = \<lparr>year = 2024, month = 6, day = 11\<rparr>, time_part = midnight\<rparr>"
  "to_utc_from_ist \<lparr>date_part = \<lparr>year = 2024, month = 6, day = 11\<rparr>, time_part = midnight\<rparr>
     midnight =
   Inr \<lparr>date_part = \<lparr>year = 2024, month = 6, day = 10\<rparr>,
        time_part = \<lparr>hour = 18, minute = 30, second = 0\<rparr>\<rparr>"
  "isoformat \<lparr>date_part = \<lparr>year = 2024, month = 6, day = 9\<rparr>,
              time_part = \<lparr>hour = 18, minute = 30, second = 0\<rparr>\<rparr> = ''2024-06-09T18:30:00''"
  "isoformat \<lparr>date_part = \<lparr>year = 2024, month = 6, day = 10\<rparr>,
              time_part = \<lparr>hour = 18, minute = 30, second = 0\<rparr>\<rparr> = ''2024-06-10T18:30:00''"
  by code_simp+

lemma other_day_outside_window:
  "\<not> in_window ''2024-06-09T18:30:00'' ''2024-06-10T18:30:00''
       \<lparr>Booking.name = ''Asha'', email = ''a@x.com'', phone = None,
        date_ist = ''2024-06-11'', start_time_ist = ''10:00'',
        start_utc_iso = ''2024-06-11T04:30:00'',
        end_utc_iso = ''2024-06-11T05:00:00'', notes' = None\<rparr>"
  by code_simp

lemma dt_le_earlier_date:
  assumes "(year d', month d', day d') < (year (date_part b), month (date_part b), day (date_part b))"
  shows "dt_le \<lparr>date_part = d', time_part = t\<rparr> b"
  using assms by (auto simp: dt_le_def dt_key_def)

lemma booked_start_in_window:
  assumes vd: "valid_date d" and first: "prev_day d = Inr d_prev"
    and r: "0 \<le> r" "r < 66600"
  shows "in_window
           (isoformat \<lparr>date_part = d_prev, time_part = \<lparr>hour = 18, minute = 30, second = 0\<rparr>\<rparr>)
           (isoformat \<lparr>date_part = d, time_part = \<lparr>hour = 18, minute = 30, second = 0\<rparr>\<rparr>)
           (doc\<lparr>start_utc_iso := isoformat \<lparr>date_part = d, time_part = time_of_seconds r\<rparr>\<rparr>)"
proof -
  let ?lo = "\<lparr>date_part = d_prev, time_part = \<lparr>hour = 18, minute = 30, second = 0\<rparr>\<rparr>"
  let ?hi = "\<lparr>date_part = d, time_part = \<lparr>hour = 18, minute = 30, second = 0\<rparr>\<rparr>"
  let ?s = "\<lparr>date_part = d, time_part = time_of_seconds r\<rparr>"
  have vt: "valid_time \<lparr>hour = 18, minute = 30, second = 0\<rparr>" by (simp add: valid_time_def)
  have vs: "valid_datetime ?s"
    using vd valid_time_of_seconds[of r] r by (simp add: valid_datetime_def)
  have vlo: "valid_datetime ?lo"
    using prev_day_valid[OF vd first] vt by (simp add: valid_datetime_def)
  have vhi: "valid_datetime ?hi" using vd vt by (simp add: valid_datetime_def)
  have le: "dt_le ?lo ?s"
    using dt_le_earlier_date[of d_prev ?s] prev_day_less[OF vd first] by simp
  have hs: "seconds_of_time \<lparr>hour = 18, minute = 30, second = 0\<rparr> = 66600"
    by (simp add: seconds_of_time_def)
  have "dt_lt ?s ?hi"
    using dt_lt_same_date[of ?s ?hi] vs vt r
    by (simp add: valid_datetime_def seconds_of_time_of_seconds hs)
  then have lt: "str_lt (isoformat ?s) (isoformat ?hi)"
    by (simp add: isoformat_lt[OF vs vhi])
  have "\<not> dt_lt ?s ?lo" using le by (auto simp: dt_le_def dt_lt_def)
  then have "str_le (isoformat ?lo) (isoformat ?s)"
    by (simp add: str_le_def isoformat_lt[OF vs vlo])
  then show ?thesis using lt by (simp add: in_window_def)
qed

lemma get_availability_first_day:
  assumes date: "ist_date_from_str int_of date_str = Inr date_dt" and wd: "weekday date_dt < 5"
    and first: "date_part date_dt = \<lparr>year = 1, month = 1, day = 1\<rparr>"
  shows "get_availability int_of fromiso date_str db = (Inl OverflowError, db)"
  using day_window_first[OF first] date wd
  by (simp add: get_availability_def slot_loop_grid del: slot_loop.simps)

lemma get_availability_last_day:
  assumes date: "ist_date_from_str int_of date_str = Inr date_dt" and wd: "weekday date_dt < 5"
    and last: "date_part date_dt = \<lparr>year = 9999, month = 12, day = 31\<rparr>"
  shows "get_availability int_of fromiso date_str db = (Inl OverflowError, db)"
proof -
  obtain d_prev where p: "prev_day (date_part date_dt) = Inr d_prev"
    using last by (simp add: prev_day_def)
  have s: "to_utc_from_ist date_dt midnight =
             Inr \<lparr>date_part = d_prev, time_part = \<lparr>hour = 18, minute = 30, second = 0\<rparr>\<rparr>"
    using to_utc_from_ist_day_before[of midnight date_dt] p
    by (simp add: seconds_of_midnight half_past_six)
  show ?thesis
    using day_window_last[OF last ist_date_from_str_valid(2)[OF date]] s date wd
    by (simp add: get_availability_def slot_loop_grid del: slot_loop.simps)
qed

subsection \<open>The instance \<open>ascii_int\<close>\<close>

lemma is_digit_not_other:
  assumes "is_digit c"
  shows "\<not> is_space c" "c \<noteq> CHR ''-''" "c \<noteq> CHR ''+''" "c \<noteq> CHR ''_''"
  using assms by (auto simp: is_digit_def is_space_def)

lemma digits_value_all_digits:
  "list_all is_digit s \<Longrightarrow>
   digits_value acc s = Some (foldl (\<lambda>acc c. acc * 10 + digit_val c) acc s)"
  by (induction s arbitrary: acc) simp_all

lemma strip_digits:
  assumes "s \<noteq> []" "list_all is_digit s"
  shows "strip s = s"
proof -
  have h: "\<not> is_space (hd s)"
    using assms is_digit_not_other(1)[of "hd s"] by (cases s) simp_all
  have l: "\<not> is_space (hd (rev s))"
    using assms is_digit_not_other(1)[of "last s"]
    by (simp add: hd_rev list_all_iff)
  have a: "dropWhile is_space s = s"
    using assms(1) h by (cases s) simp_all
  have b: "dropWhile is_space (rev s) = rev s"
    using assms(1) l by (cases "rev s") simp_all
  show ?thesis by (simp add: strip_def a b)
qed

lemma reads_decimal_ascii_int: "reads_decimal ascii_int"
proof -
  have "ascii_int s = digits_to_int s"
    if ne: "s \<noteq> []" and len: "length s \<le> 4300" and dg: "list_all is_digit s" for s
  proof -
    obtain c r where s: "s = c # r" using ne by (cases s) auto
    have c: "is_digit c" using dg s by simp
    show ?thesis
      using len dg c is_digit_not_other[OF c] strip_digits[OF ne dg]
        digits_value_all_digits[OF dg, of 0]
      by (simp add: ascii_int_def digits_to_int_def unsigned_int_def s)
  qed
  then show ?thesis by (simp add: reads_decimal_def)
qed

lemma decimal_texts:
  assumes "reads_decimal int_of"
  shows "int_of ''2024'' = Some 2024" "int_of ''06'' = Some 6" "int_of ''10'' = Some 10"
    "int_of ''09'' = Some 9" "int_of ''15'' = Some 15" "int_of ''30'' = Some 30"
proof -
  have d: "digits_to_int ''2024'' = Some 2024" "digits_to_int ''06'' = Some 6"
    "digits_to_int ''10'' = Some 10" "digits_to_int ''09'' = Some 9"
    "digits_to_int ''15'' = Some 15" "digits_to_int ''30'' = Some 30"
    by code_simp+
  show "int_of ''2024'' = Some 2024" "int_of ''06'' = Some 6" "int_of ''10'' = Some 10"
    "int_of ''09'' = Some 9" "int_of ''15'' = Some 15" "int_of ''30'' = Some 30"
    using reads_decimalD[OF assms] d by (simp_all add: is_digit_def)
qed

lemma decimal_date_2024_06_10:
  assumes "reads_decimal int_of"
  shows "ist_date_from_str int_of ''2024-06-10'' =
     Inr \<lparr>date_part = \<lparr>year = 2024, month = 6, day = 10\<rparr>, time_part = midnight\<rparr>"
  using decimal_texts[OF assms]
  by (simp add: ist_date_from_str_def mk_datetime_def valid_date_def MINYEAR_def MAXYEAR_def
      days_in_month_def DAYS_IN_MONTH_def midnight_def)

lemma decimal_times:
  assumes "reads_decimal int_of"
  shows "parse_time int_of ''09:15'' = Some \<lparr>hour = 9, minute = 15, second = 0\<rparr>"
    "parse_time int_of ''09:30'' = Some \<lparr>hour = 9, minute = 30, second = 0\<rparr>"
  using decimal_texts[OF assms]
  by (simp_all add: parse_time_def mk_time_def valid_time_def)

lemma intervals_09_15_and_09_30:
  "to_utc_from_ist \<lparr>date_part = \<lparr>year = 2024, month = 6, day = 10\<rparr>, time_part = midnight\<rparr>
     \<lparr>hour = 9, minute = 15, second = 0\<rparr> =
   Inr \<lparr>date_part = \<lparr>year = 2024, month = 6, day = 10\<rparr>,
        time_part = \<lparr>hour = 3, minute = 45, second = 0\<rparr>\<rparr>"
  "datetime_add \<lparr>date_part = \<lparr>year = 2024, month = 6, day = 10\<rparr>,
                 time_part = \<lparr>hour = 3, minute = 45, second = 0\<rparr>\<rparr>
     (mk_timedelta 0 0 SLOT_MINUTES) =
   Inr \<lparr>date_part = \<lparr>year = 2024, month = 6, day = 10\<rparr>,
        time_part = \<lparr>hour = 4, minute = 15, second = 0\<rparr>\<rparr>"
  "to_utc_from_ist \<lparr>date_part = \<lparr>year = 2024, month = 6, day = 10\<rparr>, time_part = midnight\<rparr>
     \<lparr>hour = 9, minute = 30, second = 0\<rparr> =
   Inr \<lparr>date_part = \<lparr>year = 2024, month = 6, day = 10\<rparr>,
        time_part = \<lparr>hour = 4, minute = 0, second = 0\<rparr>\<rparr>"
  "datetime_add \<lparr>date_part = \<lparr>year = 2024, month = 6, day = 10\<rparr>,
                 time_part = \<lparr>hour = 4, minute = 0, second = 0\<rparr>\<rparr>
     (mk_timedelta 0 0 SLOT_MINUTES) =
   Inr \<lparr>date_part = \<lparr>year = 2024, month = 6, day = 10\<rparr>,
        time_part = \<lparr>hour = 4, minute = 30, second = 0\<rparr>\<rparr>"
  "datetime_add \<lparr>date_part = \<lparr>year = 2024, month = 6, day = 10\<rparr>,
                 time_part = \<lparr>hour = 3, minute = 45, second = 0\<rparr>\<rparr> IST_OFFSET =
   Inr \<lparr>date_part = \<lparr>year = 2024, month = 6, day = 10\<rparr>,
        time_part = \<lparr>hour = 9, minute = 15, second = 0\<rparr>\<rparr>"
  by code_simp+

lemma texts_09_15_and_09_30:
  "isoformat \<lparr>date_part = \<lparr>year = 2024, month = 6, day = 10\<rparr>,
              time_part = \<lparr>hour = 3, minute = 45, second = 0\<rparr>\<rparr> = ''2024-06-10T03:45:00''"
  "isoformat \<lparr>date_part = \<lparr>year = 2024, month = 6, day = 10\<rparr>,
              time_part = \<lparr>hour = 4, minute = 15, second = 0\<rparr>\<rparr> = ''2024-06-10T04:15:00''"
  "isoformat \<lparr>date_part = \<lparr>year = 2024, month = 6, day = 10\<rparr>,
              time_part = \<lparr>hour = 4, minute = 0, second = 0\<rparr>\<rparr> = ''2024-06-10T04:00:00''"
  "isoformat \<lparr>date_part = \<lparr>year = 2024, month = 6, day = 10\<rparr>,
              time_part = \<lparr>hour = 4, minute = 30, second = 0\<rparr>\<rparr> = ''2024-06-10T04:30:00''"
  "hhmm 9 15 = ''09:15''"
  by code_simp+

lemma queries_09_15:
  "in_window ''2024-06-09T18:30:00'' ''2024-06-10T18:30:00''
     \<lparr>Booking.name = ''Asha'', email = ''a@x.com'', phone = None,
      date_ist = ''2024-06-10'', start_time_ist = ''09:15'',
      start_utc_iso = ''2024-06-10T03:45:00'',
      end_utc_iso = ''2024-06-10T04:15:00'', notes' = None\<rparr>"
  "conflicts ''2024-06-10T04:00:00'' ''2024-06-10T04:30:00''
     \<lparr>Booking.name = ''Asha'', email = ''a@x.com'', phone = None,
      date_ist = ''2024-06-10'', start_time_ist = ''09:15'',
      start_utc_iso = ''2024-06-10T03:45:00'',
      end_utc_iso = ''2024-06-10T04:15:00'', notes' = None\<rparr>"
  by code_simp+

lemma parse_time_at_the_ends:
  "parse_time ascii_int ''09:00'' = Some \<lparr>hour = 9, minute = 0, second = 0\<rparr>"
  "parse_time ascii_int ''16:30'' = Some \<lparr>hour = 16, minute = 30, second = 0\<rparr>"
  by code_simp+

lemma book_on_empty_store:
  assumes date: "ist_date_from_str int_of (BookingRequest.date payload) = Inr date_dt"
    and wd: "weekday date_dt < 5"
    and tm: "parse_time int_of (BookingRequest.time payload) = Some t_obj"
    and hrs: "9 \<le> hour t_obj" "hour t_obj < 17"
  shows "fst (create_booking int_of payload empty_db) =
           Inr \<lparr>status = ''confirmed'',
                BookingResponse.date = BookingRequest.date payload,
                BookingResponse.time = BookingRequest.time payload,
                timezone = ''IST''\<rparr>"
proof -
  obtain start_utc end_utc where
    s: "to_utc_from_ist date_dt t_obj = Inr start_utc"
    and e: "datetime_add start_utc (mk_timedelta 0 0 SLOT_MINUTES) = Inr end_utc"
    using booking_interval[OF ist_date_from_str_valid(1)[OF date] parse_time_valid(1)[OF tm] hrs]
    by blast
  show ?thesis
    using create_booking_steps[OF date wd tm hrs s e, of empty_db]
    by (simp add: empty_db_def)
qed

lemma book_calendar_ends:
  "fst (create_booking ascii_int (example_request ''0001-01-01'' ''09:00'') empty_db) =
     Inr \<lparr>status = ''confirmed'', BookingResponse.date = ''0001-01-01'',
          BookingResponse.time = ''09:00'', timezone = ''IST''\<rparr>"
  "fst (create_booking ascii_int (example_request ''9999-12-31'' ''16:30'') empty_db) =
     Inr \<lparr>status = ''confirmed'', BookingResponse.date = ''9999-12-31'',
          BookingResponse.time = ''16:30'', timezone = ''IST''\<rparr>"
  using book_on_empty_store[of ascii_int "example_request ''0001-01-01'' ''09:00''"]
    book_on_empty_store[of ascii_int "example_request ''9999-12-31'' ''16:30''"]
  by (simp_all add: example_request_fields date_0001_01_01 weekday_0001_01_01 date_9999_12_31
      weekday_9999_12_31 parse_time_at_the_ends)

lemma example_request_person:
  "BookingRequest.name (example_request d t) = ''Asha''"
  "BookingRequest.email (example_request d t) = ''a@x.com''"
  "BookingRequest.phone (example_request d t) = None"
  "BookingRequest.notes' (example_request d t) = None"
  by (simp_all add: example_request_def)

lemma empty_db_fields: "booking empty_db = []" "ops empty_db = []"
  by (simp_all add: empty_db_def)

lemma valid_03_45:
  "valid_datetime \<lparr>date_part = \<lparr>year = 2024, month = 6, day = 10\<rparr>,
                   time_part = \<lparr>hour = 3, minute = 45, second = 0\<rparr>\<rparr>"
  "valid_datetime \<lparr>date_part = \<lparr>year = 2024, month = 6, day = 10\<rparr>,
                   time_part = \<lparr>hour = 4, minute = 15, second = 0\<rparr>\<rparr>"
  by code_simp+

lemma availability_after_10_00:
  "get_availability ascii_int fromisoformat_seconds ''2024-06-10''
     \<lparr>booking = [\<lparr>Booking.name = ''Asha'', email = ''a@x.com'', phone = None,
                   date_ist = ''2024-06-10'', start_time_ist = ''10:00'',
                   start_utc_iso = ''2024-06-10T04:30:00'',
                   end_utc_iso = ''2024-06-10T05:00:00'', notes' = None\<rparr>],
      ops = [FindOne, InsertOne]\<rparr> =
   (Inr \<lparr>AvailabilityResponse.date = ''2024-06-10'',
         slots = [''09:00'', ''09:30'', ''10:30'', ''11:00'', ''11:30'', ''12:00'',
                  ''12:30'', ''13:00'', ''13:30'', ''14:00'', ''14:30'', ''15:00'', ''15:30'',
                  ''16:00'', ''16:30'']\<rparr>,
    \<lparr>booking = [\<lparr>Booking.name = ''Asha'', email = ''a@x.com'', phone = None,
                  date_ist = ''2024-06-10'', start_time_ist = ''10:00'',
                  start_utc_iso = ''2024-06-10T04:30:00'',
                  end_utc_iso = ''2024-06-10T05:00:00'', notes' = None\<rparr>],
     ops = [FindOne, InsertOne, Find]\<rparr>)"
  by code_simp

section \<open>Properties\<close>

subsection \<open>The overlap test\<close>

text \<open>
  C6, as stated, at an explicit input. The claim says that \<open>overlaps\<close> is true exactly when
  the half-open intervals share an instant, for every pair of intervals. For the empty
  interval from 05:00 to 05:00 and the interval from 04:00 to 06:00 of 2024-06-10 the test
  is true although no instant lies in both.
\<close>

theorem overlaps_empty_interval_counterexample:
  "\<not> (overlaps
        \<lparr>date_part = \<lparr>year = 2024, month = 6, day = 10\<rparr>,
         time_part = \<lparr>hour = 5, minute = 0, second = 0\<rparr>\<rparr>
        \<lparr>date_part = \<lparr>year = 2024, month = 6, day = 10\<rparr>,
         time_part = \<lparr>hour = 5, minute = 0, second = 0\<rparr>\<rparr>
        \<lparr>date_part = \<lparr>year = 2024, month = 6, day = 10\<rparr>,
         time_part = \<lparr>hour = 4, minute = 0, second = 0\<rparr>\<rparr>
        \<lparr>date_part = \<lparr>year = 2024, month = 6, day = 10\<rparr>,
         time_part = \<lparr>hour = 6, minute = 0, second = 0\<rparr>\<rparr>
      \<longleftrightarrow>
      (\<exists>t. dt_le \<lparr>date_part = \<lparr>year = 2024, month = 6, day = 10\<rparr>,
                    time_part = \<lparr>hour = 5, minute = 0, second = 0\<rparr>\<rparr> t
         \<and> dt_lt t \<lparr>date_part = \<lparr>year = 2024, month = 6, day = 10\<rparr>,
                    time_part = \<lparr>hour = 5, minute = 0, second = 0\<rparr>\<rparr>
         \<and> dt_le \<lparr>date_part = \<lparr>year = 2024, month = 6, day = 10\<rparr>,
                    time_part = \<lparr>hour = 4, minute = 0, second = 0\<rparr>\<rparr> t
         \<and> dt_lt t \<lparr>date_part = \<lparr>year = 2024, month = 6, day = 10\<rparr>,
                    time_part = \<lparr>hour = 6, minute = 0, second = 0\<rparr>\<rparr>))"
proof -
  let ?a = "\<lparr>date_part = \<lparr>year = 2024, month = 6, day = 10\<rparr>,
             time_part = \<lparr>hour = 5, minute = 0, second = 0\<rparr>\<rparr>"
  let ?b = "\<lparr>date_part = \<lparr>year = 2024, month = 6, day = 10\<rparr>,
             time_part = \<lparr>hour = 4, minute = 0, second = 0\<rparr>\<rparr>"
  let ?c = "\<lparr>date_part = \<lparr>year = 2024, month = 6, day = 10\<rparr>,
             time_part = \<lparr>hour = 6, minute = 0, second = 0\<rparr>\<rparr>"
  have no_instant: "\<not> (\<exists>t. dt_le ?a t \<and> dt_lt t ?a \<and> dt_le ?b t \<and> dt_lt t ?c)"
    unfolding dt_le_def dt_lt_def by (meson not_less)
  have test: "overlaps ?a ?a ?b ?c"
    by (simp add: overlaps_def dt_lt_def dt_key_def)
  show ?thesis
    using no_instant test by blast
qed

text \<open>
  C6, amended: for every pair of non-empty intervals (each start before its end),
  \<open>overlaps\<close> is true exactly when some instant lies in both half-open intervals.
\<close>

theorem overlaps_iff_share_instant:
  assumes "dt_lt a_start a_end" and "dt_lt b_start b_end"
  shows "overlaps a_start a_end b_start b_end
         \<longleftrightarrow> (\<exists>t. dt_le a_start t \<and> dt_lt t a_end \<and> dt_le b_start t \<and> dt_lt t b_end)"
proof
  assume ov: "overlaps a_start a_end b_start b_end"
  show "\<exists>t. dt_le a_start t \<and> dt_lt t a_end \<and> dt_le b_start t \<and> dt_lt t b_end"
  proof (cases "dt_le a_start b_start")
    case True
    then show ?thesis
      using ov assms by (intro exI[of _ b_start]) (auto simp: overlaps_def dt_le_def dt_lt_def)
  next
    case False
    then show ?thesis
      using ov assms by (intro exI[of _ a_start]) (auto simp: overlaps_def dt_le_def dt_lt_def)
  qed
next
  assume "\<exists>t. dt_le a_start t \<and> dt_lt t a_end \<and> dt_le b_start t \<and> dt_lt t b_end"
  then show "overlaps a_start a_end b_start b_end"
    unfolding overlaps_def dt_le_def dt_lt_def by (meson le_less_trans)
qed

theorem overlaps_iff_share_instant_witness:
  "dt_lt \<lparr>date_part = \<lparr>year = 2024, month = 6, day = 10\<rparr>,
          time_part = \<lparr>hour = 3, minute = 45, second = 0\<rparr>\<rparr>
         \<lparr>date_part = \<lparr>year = 2024, month = 6, day = 10\<rparr>,
          time_part = \<lparr>hour = 4, minute = 15, second = 0\<rparr>\<rparr>
   \<and> dt_lt \<lparr>date_part = \<lparr>year = 2024, month = 6, day = 10\<rparr>,
            time_part = \<lparr>hour = 4, minute = 0, second = 0\<rparr>\<rparr>
           \<lparr>date_part = \<lparr>year = 2024, month = 6, day = 10\<rparr>,
            time_part = \<lparr>hour = 4, minute = 30, second = 0\<rparr>\<rparr>
   \<and> (\<exists>t. dt_le \<lparr>date_part = \<lparr>year = 2024, month = 6, day = 10\<rparr>,
                  time_part = \<lparr>hour = 3, minute = 45, second = 0\<rparr>\<rparr> t
         \<and> dt_lt t \<lparr>date_part = \<lparr>year = 2024, month = 6, day = 10\<rparr>,
                    time_part = \<lparr>hour = 4, minute = 15, second = 0\<rparr>\<rparr>
         \<and> dt_le \<lparr>date_part = \<lparr>year = 2024, month = 6, day = 10\<rparr>,
                  time_part = \<lparr>hour = 4, minute = 0, second = 0\<rparr>\<rparr> t
         \<and> dt_lt t \<lparr>date_part = \<lparr>year = 2024, month = 6, day = 10\<rparr>,
                    time_part = \<lparr>hour = 4, minute = 30, second = 0\<rparr>\<rparr>)"
proof -
  let ?a = "\<lparr>date_part = \<lparr>year = 2024, month = 6, day = 10\<rparr>,
             time_part = \<lparr>hour = 3, minute = 45, second = 0\<rparr>\<rparr>"
  let ?b = "\<lparr>date_part = \<lparr>year = 2024, month = 6, day = 10\<rparr>,
             time_part = \<lparr>hour = 4, minute = 15, second = 0\<rparr>\<rparr>"
  let ?c = "\<lparr>date_part = \<lparr>year = 2024, month = 6, day = 10\<rparr>,
             time_part = \<lparr>hour = 4, minute = 0, second = 0\<rparr>\<rparr>"
  let ?d = "\<lparr>date_part = \<lparr>year = 2024, month = 6, day = 10\<rparr>,
             time_part = \<lparr>hour = 4, minute = 30, second = 0\<rparr>\<rparr>"
  have h1: "dt_lt ?a ?b" and h2: "dt_lt ?c ?d"
    by (simp_all add: dt_lt_def dt_key_def)
  have ov: "overlaps ?a ?b ?c ?d"
    by (simp add: overlaps_def dt_lt_def dt_key_def)
  show ?thesis
    using overlaps_iff_share_instant[OF h1 h2] ov h1 h2 by simp
qed

subsection \<open>Weekends\<close>

text \<open>
  C8: for every date whose weekday is Saturday (5) or Sunday (6), \<open>get_availability\<close>
  returns the empty slot list, whatever the store holds, and leaves the store
  untouched.
\<close>

theorem availability_weekend_empty:
  assumes "ist_date_from_str int_of date_str = Inr date_dt"
    and "weekday date_dt = 5 \<or> weekday date_dt = 6"
  shows "get_availability int_of fromiso date_str db =
           (Inr \<lparr>AvailabilityResponse.date = date_str, slots = []\<rparr>, db)"
  using assms by (auto simp: get_availability_def)

theorem availability_weekend_empty_witness:
  "ist_date_from_str ascii_int ''2024-06-08'' =
     Inr \<lparr>date_part = \<lparr>year = 2024, month = 6, day = 8\<rparr>,
          time_part = \<lparr>hour = 0, minute = 0, second = 0\<rparr>\<rparr>
   \<and> (weekday \<lparr>date_part = \<lparr>year = 2024, month = 6, day = 8\<rparr>,
                time_part = \<lparr>hour = 0, minute = 0, second = 0\<rparr>\<rparr> = 5
      \<or> weekday \<lparr>date_part = \<lparr>year = 2024, month = 6, day = 8\<rparr>,
                  time_part = \<lparr>hour = 0, minute = 0, second = 0\<rparr>\<rparr> = 6)
   \<and> get_availability ascii_int fromisoformat_seconds ''2024-06-08''
        \<lparr>booking = [\<lparr>Booking.name = ''Asha'', email = ''a@x.com'', phone = None,
                     date_ist = ''2024-06-08'', start_time_ist = ''10:00'',
                     start_utc_iso = ''2024-06-08T04:30:00'',
                     end_utc_iso = ''2024-06-08T05:00:00'', notes' = None\<rparr>],
         ops = []\<rparr>
      = (Inr \<lparr>AvailabilityResponse.date = ''2024-06-08'', slots = []\<rparr>,
         \<lparr>booking = [\<lparr>Booking.name = ''Asha'', email = ''a@x.com'', phone = None,
                      date_ist = ''2024-06-08'', start_time_ist = ''10:00'',
                      start_utc_iso = ''2024-06-08T04:30:00'',
                      end_utc_iso = ''2024-06-08T05:00:00'', notes' = None\<rparr>],
          ops = []\<rparr>)"
proof -
  have p: "ist_date_from_str ascii_int ''2024-06-08'' =
     Inr \<lparr>date_part = \<lparr>year = 2024, month = 6, day = 8\<rparr>,
          time_part = \<lparr>hour = 0, minute = 0, second = 0\<rparr>\<rparr>"
    by code_simp
  have w: "weekday \<lparr>date_part = \<lparr>year = 2024, month = 6, day = 8\<rparr>,
                    time_part = \<lparr>hour = 0, minute = 0, second = 0\<rparr>\<rparr> = 5"
    by (simp add: weekday_def toordinal_def days_before_year_def days_before_month_def
        DAYS_BEFORE_MONTH_def is_leap_def)
  show ?thesis
    using availability_weekend_empty[OF p, of fromisoformat_seconds] p w by simp
qed

subsection \<open>Stored interval\<close>

text \<open>
  C4: whenever \<open>create_booking\<close> accepts a request, it appends one document whose two
  timestamps are the texts of a start and an end instant; the start instant plus the
  offset of 5:30 is the requested local date and time, and the end instant is the start
  instant plus 30 minutes. The texts are read back with any \<open>fromiso\<close> that inverts
  \<open>isoformat\<close>.
\<close>

theorem booking_round_trip:
  assumes date: "ist_date_from_str int_of (BookingRequest.date payload) = Inr date_dt"
    and tm: "parse_time int_of (BookingRequest.time payload) = Some t_obj"
    and ok: "create_booking int_of payload db = (Inr r, db')"
    and inv: "inverts_isoformat fromiso"
  shows "\<exists>doc start_utc end_utc.
           booking db' = booking db @ [doc]
         \<and> fromiso (start_utc_iso doc) = Some start_utc
         \<and> fromiso (end_utc_iso doc) = Some end_utc
         \<and> datetime_add start_utc IST_OFFSET = Inr (combine (date_part date_dt) t_obj)
         \<and> datetime_add start_utc (mk_timedelta 0 0 SLOT_MINUTES) = Inr end_utc"
proof -
  have wd: "weekday date_dt < 5" and hrs: "9 \<le> hour t_obj" "hour t_obj < 17"
    using ok date tm
    by (auto simp: create_booking_def START_HOUR_IST_def END_HOUR_IST_def split: if_splits)
  obtain start_utc end_utc where
    s: "to_utc_from_ist date_dt t_obj = Inr start_utc"
    and e: "datetime_add start_utc (mk_timedelta 0 0 SLOT_MINUTES) = Inr end_utc"
    and v: "valid_datetime start_utc" "valid_datetime end_utc"
    and rt: "datetime_add start_utc IST_OFFSET = Inr (combine (date_part date_dt) t_obj)"
    using booking_interval[OF ist_date_from_str_valid(1)[OF date] parse_time_valid(1)[OF tm] hrs]
    by blast
  let ?doc = "\<lparr>Booking.name = BookingRequest.name payload,
                Booking.email = BookingRequest.email payload,
                Booking.phone = BookingRequest.phone payload,
                date_ist = BookingRequest.date payload,
                start_time_ist = BookingRequest.time payload,
                start_utc_iso = isoformat start_utc,
                end_utc_iso = isoformat end_utc,
                Booking.notes' = BookingRequest.notes' payload\<rparr>"
  have "booking db' = booking db @ [?doc]"
    using ok create_booking_steps[OF date wd tm hrs s e, of db]
    by (auto split: option.splits)
  moreover have "fromiso (start_utc_iso ?doc) = Some start_utc"
    "fromiso (end_utc_iso ?doc) = Some end_utc"
    using inv v by (simp_all add: inverts_isoformat_def)
  ultimately show ?thesis using rt e by blast
qed

theorem booking_round_trip_witness:
  "ist_date_from_str ascii_int (BookingRequest.date (example_request ''2024-06-10'' ''10:00'')) =
     Inr \<lparr>date_part = \<lparr>year = 2024, month = 6, day = 10\<rparr>, time_part = midnight\<rparr>
   \<and> parse_time ascii_int (BookingRequest.time (example_request ''2024-06-10'' ''10:00'')) =
       Some \<lparr>hour = 10, minute = 0, second = 0\<rparr>
   \<and> create_booking ascii_int (example_request ''2024-06-10'' ''10:00'') empty_db =
       (Inr \<lparr>status = ''confirmed'', BookingResponse.date = ''2024-06-10'',
             BookingResponse.time = ''10:00'', timezone = ''IST''\<rparr>,
        \<lparr>booking = [\<lparr>Booking.name = ''Asha'', email = ''a@x.com'', phone = None,
                      date_ist = ''2024-06-10'', start_time_ist = ''10:00'',
                      start_utc_iso = ''2024-06-10T04:30:00'',
                      end_utc_iso = ''2024-06-10T05:00:00'', notes' = None\<rparr>],
         ops = [FindOne, InsertOne]\<rparr>)
   \<and> inverts_isoformat fromisoformat_seconds
   \<and> (\<exists>start_utc end_utc.
          fromisoformat_seconds ''2024-06-10T04:30:00'' = Some start_utc
        \<and> fromisoformat_seconds ''2024-06-10T05:00:00'' = Some end_utc
        \<and> datetime_add start_utc IST_OFFSET =
            Inr (combine \<lparr>year = 2024, month = 6, day = 10\<rparr>
                         \<lparr>hour = 10, minute = 0, second = 0\<rparr>)
        \<and> datetime_add start_utc (mk_timedelta 0 0 SLOT_MINUTES) = Inr end_utc)"
proof -
  have h1: "ist_date_from_str ascii_int (BookingRequest.date (example_request ''2024-06-10'' ''10:00'')) =
     Inr \<lparr>date_part = \<lparr>year = 2024, month = 6, day = 10\<rparr>, time_part = midnight\<rparr>"
    by (simp add: example_request_def date_2024_06_10)
  have h2: "parse_time ascii_int (BookingRequest.time (example_request ''2024-06-10'' ''10:00'')) =
       Some \<lparr>hour = 10, minute = 0, second = 0\<rparr>"
    by (simp add: example_request_def parse_time_10_00)
  note h3 = book_10_00
  show ?thesis
    using booking_round_trip[OF h1 h2 h3 inverts_isoformat_seconds] h1 h2 h3
      inverts_isoformat_seconds
    by (simp add: empty_db_def)
qed

subsection \<open>Comparing timestamps as texts\<close>

text \<open>
  C10: the store's queries compare the timestamp texts as strings. For the texts
  \<open>isoformat\<close> produces from valid \<open>datetime\<close> values (years 1 to 9999, every field
  zero-padded to a fixed width), the string order is the order of the instants: the range
  query of \<open>get_availability\<close> selects the documents whose start instant lies in the
  window, and the conflict query of \<open>create_booking\<close> is the overlap test on the
  instants.
\<close>

theorem iso_text_order_is_chronological:
  assumes "valid_datetime s" and "valid_datetime e"
    and "valid_datetime lo" and "valid_datetime hi"
  shows "str_lt (isoformat s) (isoformat e) = dt_lt s e
       \<and> str_le (isoformat s) (isoformat e) = dt_le s e
       \<and> in_window (isoformat lo) (isoformat hi) (doc\<lparr>start_utc_iso := isoformat s\<rparr>)
           = (dt_le lo s \<and> dt_lt s hi)
       \<and> conflicts (isoformat lo) (isoformat hi)
             (doc\<lparr>start_utc_iso := isoformat s, end_utc_iso := isoformat e\<rparr>)
           = overlaps s e lo hi"
proof -
  have le: "str_le (isoformat a) (isoformat b) = dt_le a b"
    if "valid_datetime a" "valid_datetime b" for a b
    using isoformat_lt[OF that(2) that(1)]
    by (auto simp: str_le_def dt_le_def dt_lt_def)
  show ?thesis
    using assms
    by (simp add: isoformat_lt le in_window_def conflicts_def overlaps_def)
qed

theorem iso_text_order_is_chronological_witness:
  "valid_datetime \<lparr>date_part = \<lparr>year = 2024, month = 6, day = 10\<rparr>,
                   time_part = \<lparr>hour = 3, minute = 45, second = 0\<rparr>\<rparr>
   \<and> valid_datetime \<lparr>date_part = \<lparr>year = 2024, month = 6, day = 10\<rparr>,
                     time_part = \<lparr>hour = 4, minute = 15, second = 0\<rparr>\<rparr>
   \<and> valid_datetime \<lparr>date_part = \<lparr>year = 2024, month = 6, day = 10\<rparr>,
                     time_part = \<lparr>hour = 4, minute = 0, second = 0\<rparr>\<rparr>
   \<and> valid_datetime \<lparr>date_part = \<lparr>year = 2024, month = 6, day = 10\<rparr>,
                     time_part = \<lparr>hour = 4, minute = 30, second = 0\<rparr>\<rparr>
   \<and> str_lt ''2024-06-10T03:45:00'' ''2024-06-10T04:15:00''
   \<and> conflicts ''2024-06-10T04:00:00'' ''2024-06-10T04:30:00''
         \<lparr>Booking.name = ''Asha'', email = ''a@x.com'', phone = None,
          date_ist = ''2024-06-10'', start_time_ist = ''09:15'',
          start_utc_iso = ''2024-06-10T03:45:00'',
          end_utc_iso = ''2024-06-10T04:15:00'', notes' = None\<rparr>
   \<and> overlaps \<lparr>date_part = \<lparr>year = 2024, month = 6, day = 10\<rparr>,
                time_part = \<lparr>hour = 3, minute = 45, second = 0\<rparr>\<rparr>
               \<lparr>date_part = \<lparr>year = 2024, month = 6, day = 10\<rparr>,
                time_part = \<lparr>hour = 4, minute = 15, second = 0\<rparr>\<rparr>
               \<lparr>date_part = \<lparr>year = 2024, month = 6, day = 10\<rparr>,
                time_part = \<lparr>hour = 4, minute = 0, second = 0\<rparr>\<rparr>
               \<lparr>date_part = \<lparr>year = 2024, month = 6, day = 10\<rparr>,
                time_part = \<lparr>hour = 4, minute = 30, second = 0\<rparr>\<rparr>"
proof -
  let ?s = "\<lparr>date_part = \<lparr>year = 2024, month = 6, day = 10\<rparr>,
             time_part = \<lparr>hour = 3, minute = 45, second = 0\<rparr>\<rparr>"
  let ?e = "\<lparr>date_part = \<lparr>year = 2024, month = 6, day = 10\<rparr>,
             time_part = \<lparr>hour = 4, minute = 15, second = 0\<rparr>\<rparr>"
  let ?lo = "\<lparr>date_part = \<lparr>year = 2024, month = 6, day = 10\<rparr>,
              time_part = \<lparr>hour = 4, minute = 0, second = 0\<rparr>\<rparr>"
  let ?hi = "\<lparr>date_part = \<lparr>year = 2024, month = 6, day = 10\<rparr>,
              time_part = \<lparr>hour = 4, minute = 30, second = 0\<rparr>\<rparr>"
  let ?doc = "\<lparr>Booking.name = ''Asha'', email = ''a@x.com'', phone = None,
          date_ist = ''2024-06-10'', start_time_ist = ''09:15'',
          start_utc_iso = ''2024-06-10T03:45:00'',
          end_utc_iso = ''2024-06-10T04:15:00'', notes' = None\<rparr>"
  have v: "valid_datetime ?s" "valid_datetime ?e" "valid_datetime ?lo" "valid_datetime ?hi"
    by (simp_all add: valid_datetime_def valid_date_def valid_time_def MINYEAR_def MAXYEAR_def
        days_in_month_def DAYS_IN_MONTH_def)
  have iso: "isoformat ?s = ''2024-06-10T03:45:00''" "isoformat ?e = ''2024-06-10T04:15:00''"
    "isoformat ?lo = ''2024-06-10T04:00:00''" "isoformat ?hi = ''2024-06-10T04:30:00''"
    by code_simp+
  have lt: "dt_lt ?s ?e" and ov: "overlaps ?s ?e ?lo ?hi"
    by (simp_all add: overlaps_def dt_lt_def dt_key_def)
  show ?thesis
    using iso_text_order_is_chronological[OF v, of ?doc] v lt ov
    by (simp add: iso)
qed

subsection \<open>Business hours\<close>

text \<open>
  C5: once the date is a weekday and the time text parses, \<open>create_booking\<close> answers with
  the out-of-hours error exactly when the hour is not between 9 and 16, and leaves the
  store as it was. Because a parsed minute lies between 0 and 59, that test on the hour
  alone is the test \<open>09:00 \<le> time < 17:00\<close>; minutes off the half-hour grid pass it.
  Whatever the date, a request whose time is outside these hours is rejected with status
  400 and the store unchanged.
\<close>

theorem business_hours_check:
  assumes tm: "parse_time int_of (BookingRequest.time payload) = Some t_obj"
  shows "((9 \<le> hour t_obj \<and> hour t_obj < 17)
            = (540 \<le> hour t_obj * 60 + minute t_obj \<and> hour t_obj * 60 + minute t_obj < 1020))
       \<and> (\<not> (9 \<le> hour t_obj \<and> hour t_obj < 17) \<longrightarrow>
            (\<exists>detail. create_booking int_of payload db = (Inl (HTTPException 400 detail), db)))
       \<and> (ist_date_from_str int_of (BookingRequest.date payload) = Inr date_dt \<and> weekday date_dt < 5
            \<longrightarrow> (create_booking int_of payload db = (Inl out_of_hours_error, db))
                  = (\<not> (9 \<le> hour t_obj \<and> hour t_obj < 17)))"
proof (intro conjI impI)
  have vt: "valid_time t_obj" using parse_time_valid(1)[OF tm] .
  show "(9 \<le> hour t_obj \<and> hour t_obj < 17)
          = (540 \<le> hour t_obj * 60 + minute t_obj \<and> hour t_obj * 60 + minute t_obj < 1020)"
    using vt by (auto simp: valid_time_def)
next
  assume out: "\<not> (9 \<le> hour t_obj \<and> hour t_obj < 17)"
  show "\<exists>detail. create_booking int_of payload db = (Inl (HTTPException 400 detail), db)"
  proof (cases "ist_date_from_str int_of (BookingRequest.date payload)")
    case (Inl e)
    then have "e = invalid_date_error"
      by (auto simp: ist_date_from_str_def split: list.splits option.splits)
    then show ?thesis using Inl by (simp add: create_booking_def invalid_date_error_def)
  next
    case (Inr date_dt)
    then show ?thesis using tm out
      by (simp add: create_booking_def weekend_error_def out_of_hours_error_def
          START_HOUR_IST_def END_HOUR_IST_def)
  qed
next
  assume h: "ist_date_from_str int_of (BookingRequest.date payload) = Inr date_dt \<and> weekday date_dt < 5"
  show "(create_booking int_of payload db = (Inl out_of_hours_error, db))
          = (\<not> (9 \<le> hour t_obj \<and> hour t_obj < 17))"
  proof (cases "9 \<le> hour t_obj \<and> hour t_obj < 17")
    case False
    then show ?thesis using h tm
      by (simp add: create_booking_def START_HOUR_IST_def END_HOUR_IST_def)
  next
    case True
    obtain start_utc end_utc where
      s: "to_utc_from_ist date_dt t_obj = Inr start_utc"
      and e: "datetime_add start_utc (mk_timedelta 0 0 SLOT_MINUTES) = Inr end_utc"
      using booking_interval[OF ist_date_from_str_valid(1)[of int_of _ date_dt]
          parse_time_valid(1)[OF tm]]
        h True by blast
    have "create_booking int_of payload db \<noteq> (Inl out_of_hours_error, db)"
      using create_booking_steps[OF _ _ tm _ _ s e, of db] h True
      by (auto simp: conflict_error_def out_of_hours_error_def split: option.splits)
    then show ?thesis using True by simp
  qed
qed

theorem business_hours_check_witness:
  "ist_date_from_str ascii_int (BookingRequest.date (example_request ''2024-06-10'' ''08:30'')) =
     Inr \<lparr>date_part = \<lparr>year = 2024, month = 6, day = 10\<rparr>, time_part = midnight\<rparr>
   \<and> weekday \<lparr>date_part = \<lparr>year = 2024, month = 6, day = 10\<rparr>, time_part = midnight\<rparr> < 5
   \<and> parse_time ascii_int (BookingRequest.time (example_request ''2024-06-10'' ''08:30'')) =
       Some \<lparr>hour = 8, minute = 30, second = 0\<rparr>
   \<and> create_booking ascii_int (example_request ''2024-06-10'' ''08:30'') empty_db =
       (Inl out_of_hours_error, empty_db)
   \<and> parse_time ascii_int (BookingRequest.time (example_request ''2024-06-10'' ''17:00'')) =
       Some \<lparr>hour = 17, minute = 0, second = 0\<rparr>
   \<and> create_booking ascii_int (example_request ''2024-06-10'' ''17:00'') empty_db =
       (Inl out_of_hours_error, empty_db)
   \<and> parse_time ascii_int (BookingRequest.time (example_request ''2024-06-10'' ''09:15'')) =
       Some \<lparr>hour = 9, minute = 15, second = 0\<rparr>
   \<and> create_booking ascii_int (example_request ''2024-06-10'' ''09:15'') empty_db \<noteq>
       (Inl out_of_hours_error, empty_db)"
proof -
  let ?d = "\<lparr>date_part = \<lparr>year = 2024, month = 6, day = 10\<rparr>, time_part = midnight\<rparr>"
  have d: "ist_date_from_str ascii_int (BookingRequest.date (example_request ''2024-06-10'' t)) = Inr ?d"
    for t by (simp add: example_request_def date_2024_06_10)
  have w: "weekday ?d < 5" by (simp add: weekday_2024_06_10)
  have t1: "parse_time ascii_int (BookingRequest.time (example_request ''2024-06-10'' ''08:30'')) =
       Some \<lparr>hour = 8, minute = 30, second = 0\<rparr>"
    by (simp add: example_request_def parse_time_08_30)
  have t2: "parse_time ascii_int (BookingRequest.time (example_request ''2024-06-10'' ''17:00'')) =
       Some \<lparr>hour = 17, minute = 0, second = 0\<rparr>"
    by (simp add: example_request_def parse_time_17_00)
  have t3: "parse_time ascii_int (BookingRequest.time (example_request ''2024-06-10'' ''09:15'')) =
       Some \<lparr>hour = 9, minute = 15, second = 0\<rparr>"
    by (simp add: example_request_def parse_time_09_15)
  have r1: "create_booking ascii_int (example_request ''2024-06-10'' ''08:30'') empty_db =
       (Inl out_of_hours_error, empty_db)"
    using business_hours_check[OF t1, of empty_db ?d] d w by simp
  have r2: "create_booking ascii_int (example_request ''2024-06-10'' ''17:00'') empty_db =
       (Inl out_of_hours_error, empty_db)"
    using business_hours_check[OF t2, of empty_db ?d] d w by simp
  have r3: "create_booking ascii_int (example_request ''2024-06-10'' ''09:15'') empty_db \<noteq>
       (Inl out_of_hours_error, empty_db)"
    using business_hours_check[OF t3, of empty_db ?d] d w by simp
  show ?thesis using d w t1 t2 t3 r1 r2 r3 by simp
qed

subsection \<open>Failures write nothing\<close>

text \<open>
  C7: when \<open>create_booking\<close> answers with an error, the collection is what it was. The
  error is one of five. For a malformed date, a weekend, a malformed time or a time out of
  hours the whole store state is unchanged: no operation was issued against the store.
  For a conflict the only operation issued is the one read of the conflict check.
\<close>

theorem booking_failure_writes_nothing:
  assumes err: "create_booking int_of payload db = (Inl e, db')"
  shows "booking db' = booking db
       \<and> (e = conflict_error \<and> db' = db\<lparr>ops := ops db @ [FindOne]\<rparr>
          \<or> (e = invalid_date_error \<or> e = weekend_error \<or> e = invalid_time_error
               \<or> e = out_of_hours_error) \<and> db' = db)"
proof (cases "ist_date_from_str int_of (BookingRequest.date payload)")
  case (Inl e')
  then show ?thesis
    using err ist_date_from_str_error[OF Inl] by (simp add: create_booking_def)
next
  case (Inr date_dt)
  note date = this
  show ?thesis
  proof (cases "weekday date_dt < 5")
    case False
    then show ?thesis using err date by (simp add: create_booking_def)
  next
    case wd: True
    show ?thesis
    proof (cases "parse_time int_of (BookingRequest.time payload)")
      case None
      then show ?thesis using err date wd by (simp add: create_booking_def)
    next
      case (Some t_obj)
      note tm = this
      show ?thesis
      proof (cases "9 \<le> hour t_obj \<and> hour t_obj < 17")
        case False
        then show ?thesis using err date wd tm
          by (simp add: create_booking_def START_HOUR_IST_def END_HOUR_IST_def)
      next
        case True
        then have hrs: "9 \<le> hour t_obj" "hour t_obj < 17" by simp_all
        obtain start_utc end_utc where
          s: "to_utc_from_ist date_dt t_obj = Inr start_utc"
          and e: "datetime_add start_utc (mk_timedelta 0 0 SLOT_MINUTES) = Inr end_utc"
          using booking_interval[OF ist_date_from_str_valid(1)[OF date]
              parse_time_valid(1)[OF tm] hrs]
          by blast
        show ?thesis
          using err create_booking_steps[OF date wd tm hrs s e, of db]
          by (auto split: option.splits)
      qed
    qed
  qed
qed

theorem booking_failure_writes_nothing_witness:
  "create_booking ascii_int (example_request ''2024-06-10'' ''10:00'')
     \<lparr>booking = [\<lparr>Booking.name = ''Asha'', email = ''a@x.com'', phone = None,
                   date_ist = ''2024-06-10'', start_time_ist = ''10:00'',
                   start_utc_iso = ''2024-06-10T04:30:00'',
                   end_utc_iso = ''2024-06-10T05:00:00'', notes' = None\<rparr>],
      ops = [FindOne, InsertOne]\<rparr> =
     (Inl conflict_error,
      \<lparr>booking = [\<lparr>Booking.name = ''Asha'', email = ''a@x.com'', phone = None,
                    date_ist = ''2024-06-10'', start_time_ist = ''10:00'',
                    start_utc_iso = ''2024-06-10T04:30:00'',
                    end_utc_iso = ''2024-06-10T05:00:00'', notes' = None\<rparr>],
       ops = [FindOne, InsertOne, FindOne]\<rparr>)
   \<and> booking \<lparr>booking = [\<lparr>Booking.name = ''Asha'', email = ''a@x.com'', phone = None,
                    date_ist = ''2024-06-10'', start_time_ist = ''10:00'',
                    start_utc_iso = ''2024-06-10T04:30:00'',
                    end_utc_iso = ''2024-06-10T05:00:00'', notes' = None\<rparr>],
       ops = [FindOne, InsertOne, FindOne]\<rparr>
     = booking \<lparr>booking = [\<lparr>Booking.name = ''Asha'', email = ''a@x.com'', phone = None,
                   date_ist = ''2024-06-10'', start_time_ist = ''10:00'',
                   start_utc_iso = ''2024-06-10T04:30:00'',
                   end_utc_iso = ''2024-06-10T05:00:00'', notes' = None\<rparr>],
      ops = [FindOne, InsertOne]\<rparr>"
  using booking_failure_writes_nothing[OF book_10_00_twice] book_10_00_twice by simp

subsection \<open>Booking the same slot twice\<close>

text \<open>
  C1, as stated, at an explicit input. The claim says that for every store state the first
  of two bookings of the same date and time is confirmed. In the store left by one
  booking of 2024-06-10 (a Monday) at 10:00, the next booking of that date and time is
  the first of two more, and it is answered with the conflict error.
\<close>

theorem first_booking_conflict_counterexample:
  "name_length_ok (example_request ''2024-06-10'' ''10:00'')
   \<and> ist_date_from_str ascii_int (BookingRequest.date (example_request ''2024-06-10'' ''10:00'')) =
     Inr \<lparr>date_part = \<lparr>year = 2024, month = 6, day = 10\<rparr>, time_part = midnight\<rparr>
   \<and> weekday \<lparr>date_part = \<lparr>year = 2024, month = 6, day = 10\<rparr>, time_part = midnight\<rparr> = 0
   \<and> parse_time ascii_int (BookingRequest.time (example_request ''2024-06-10'' ''10:00'')) =
       Some \<lparr>hour = 10, minute = 0, second = 0\<rparr>
   \<and> fst (create_booking ascii_int (example_request ''2024-06-10'' ''10:00'')
             (snd (create_booking ascii_int (example_request ''2024-06-10'' ''10:00'') empty_db)))
       = Inl conflict_error"
proof -
  have "name_length_ok (example_request ''2024-06-10'' ''10:00'')"
    by (simp add: name_length_ok_def example_request_def)
  then show ?thesis
    by (simp add: example_request_fields date_2024_06_10 weekday_2024_06_10 parse_time_10_00
        book_10_00 book_10_00_twice)
qed

text \<open>
  C1, amended: for every store state and every request with a weekday date and a time
  within hours, the start and end instants are computed without error. If no stored
  booking satisfies the conflict query for them, the first call is confirmed and a second
  call with the same date and time, on the store the first call left, is answered with
  the conflict error (status 409). If one does, already the first call is answered with
  the conflict error.
\<close>

theorem booking_twice:
  assumes date: "ist_date_from_str int_of (BookingRequest.date payload) = Inr date_dt"
    and wd: "weekday date_dt < 5"
    and tm: "parse_time int_of (BookingRequest.time payload) = Some t_obj"
    and hrs: "9 \<le> hour t_obj" "hour t_obj < 17"
    and same: "BookingRequest.date payload' = BookingRequest.date payload"
      "BookingRequest.time payload' = BookingRequest.time payload"
  shows "\<exists>start_utc end_utc.
           to_utc_from_ist date_dt t_obj = Inr start_utc
         \<and> datetime_add start_utc (mk_timedelta 0 0 SLOT_MINUTES) = Inr end_utc
         \<and> (if \<exists>doc\<in>set (booking db). conflicts (isoformat start_utc) (isoformat end_utc) doc
            then fst (create_booking int_of payload db) = Inl conflict_error
            else \<exists>db1.
                   create_booking int_of payload db =
                     (Inr \<lparr>status = ''confirmed'',
                           BookingResponse.date = BookingRequest.date payload,
                           BookingResponse.time = BookingRequest.time payload,
                           timezone = ''IST''\<rparr>, db1)
                 \<and> fst (create_booking int_of payload' db1) = Inl conflict_error)"
proof -
  note vd = ist_date_from_str_valid(1)[OF date] and vt = parse_time_valid(1)[OF tm]
  obtain start_utc end_utc where
    s: "to_utc_from_ist date_dt t_obj = Inr start_utc"
    and e: "datetime_add start_utc (mk_timedelta 0 0 SLOT_MINUTES) = Inr end_utc"
    using booking_interval[OF vd vt hrs] by blast
  note lt = slot_start_before_end[OF vd vt hrs s e]
  let ?q = "conflicts (isoformat start_utc) (isoformat end_utc)"
  note first = create_booking_steps[OF date wd tm hrs s e, of db]
  have "if \<exists>doc\<in>set (booking db). ?q doc
        then fst (create_booking int_of payload db) = Inl conflict_error
        else \<exists>db1.
               create_booking int_of payload db =
                 (Inr \<lparr>status = ''confirmed'',
                       BookingResponse.date = BookingRequest.date payload,
                       BookingResponse.time = BookingRequest.time payload,
                       timezone = ''IST''\<rparr>, db1)
             \<and> fst (create_booking int_of payload' db1) = Inl conflict_error"
  proof (cases "\<exists>doc\<in>set (booking db). ?q doc")
    case True
    then have "find ?q (booking db) \<noteq> None" by (simp add: find_None_iff_Ball)
    then show ?thesis using True first by (auto split: option.splits)
  next
    case False
    then have none: "find ?q (booking db) = None" by (simp add: find_None_iff_Ball)
    let ?doc = "\<lparr>Booking.name = BookingRequest.name payload,
                  Booking.email = BookingRequest.email payload,
                  Booking.phone = BookingRequest.phone payload,
                  date_ist = BookingRequest.date payload,
                  start_time_ist = BookingRequest.time payload,
                  start_utc_iso = isoformat start_utc,
                  end_utc_iso = isoformat end_utc,
                  Booking.notes' = BookingRequest.notes' payload\<rparr>"
    let ?db1 = "\<lparr>booking = booking db @ [?doc], ops = ops db @ [FindOne, InsertOne]\<rparr>"
    have r1: "create_booking int_of payload db =
                 (Inr \<lparr>status = ''confirmed'',
                       BookingResponse.date = BookingRequest.date payload,
                       BookingResponse.time = BookingRequest.time payload,
                       timezone = ''IST''\<rparr>, ?db1)"
      using first none by simp
    have q: "?q ?doc"
      using lt by (simp add: conflicts_def isoformat_lt)
    have found: "find ?q (booking ?db1) = Some ?doc"
      using find_append_new[OF none q] by simp
    have date': "ist_date_from_str int_of (BookingRequest.date payload') = Inr date_dt"
      and tm': "parse_time int_of (BookingRequest.time payload') = Some t_obj"
      using date tm same by simp_all
    have r2: "fst (create_booking int_of payload' ?db1) = Inl conflict_error"
      using create_booking_steps[OF date' wd tm' hrs s e, of ?db1] found by simp
    show ?thesis using False r1 r2 by auto
  qed
  then show ?thesis using s e by blast
qed

theorem booking_twice_witness:
  "ist_date_from_str ascii_int (BookingRequest.date (example_request ''2024-06-10'' ''10:00'')) =
     Inr \<lparr>date_part = \<lparr>year = 2024, month = 6, day = 10\<rparr>, time_part = midnight\<rparr>
   \<and> weekday \<lparr>date_part = \<lparr>year = 2024, month = 6, day = 10\<rparr>, time_part = midnight\<rparr> < 5
   \<and> parse_time ascii_int (BookingRequest.time (example_request ''2024-06-10'' ''10:00'')) =
       Some \<lparr>hour = 10, minute = 0, second = 0\<rparr>
   \<and> 9 \<le> hour \<lparr>hour = 10, minute = 0, second = 0\<rparr>
   \<and> hour \<lparr>hour = 10, minute = 0, second = 0\<rparr> < 17
   \<and> BookingRequest.date ((example_request ''2024-06-10'' ''10:00'')\<lparr>BookingRequest.name := ''Bala''\<rparr>)
       = BookingRequest.date (example_request ''2024-06-10'' ''10:00'')
   \<and> BookingRequest.time ((example_request ''2024-06-10'' ''10:00'')\<lparr>BookingRequest.name := ''Bala''\<rparr>)
       = BookingRequest.time (example_request ''2024-06-10'' ''10:00'')
   \<and> (\<exists>db1.
         create_booking ascii_int (example_request ''2024-06-10'' ''10:00'') empty_db =
           (Inr \<lparr>status = ''confirmed'', BookingResponse.date = ''2024-06-10'',
                 BookingResponse.time = ''10:00'', timezone = ''IST''\<rparr>, db1)
       \<and> fst (create_booking ascii_int
                 ((example_request ''2024-06-10'' ''10:00'')\<lparr>BookingRequest.name := ''Bala''\<rparr>) db1)
           = Inl conflict_error)"
proof -
  let ?p = "example_request ''2024-06-10'' ''10:00''"
  let ?d = "\<lparr>date_part = \<lparr>year = 2024, month = 6, day = 10\<rparr>, time_part = midnight\<rparr>"
  let ?t = "\<lparr>hour = 10, minute = 0, second = 0\<rparr>"
  have h1: "ist_date_from_str ascii_int (BookingRequest.date ?p) = Inr ?d"
    by (simp add: example_request_fields date_2024_06_10)
  have h2: "weekday ?d < 5" by (simp add: weekday_2024_06_10)
  have h3: "parse_time ascii_int (BookingRequest.time ?p) = Some ?t"
    by (simp add: example_request_fields parse_time_10_00)
  have h4: "9 \<le> hour ?t" and h5: "hour ?t < 17" by simp_all
  have h6: "BookingRequest.date (?p\<lparr>BookingRequest.name := ''Bala''\<rparr>) = BookingRequest.date ?p"
    and h7: "BookingRequest.time (?p\<lparr>BookingRequest.name := ''Bala''\<rparr>) = BookingRequest.time ?p"
    by simp_all
  have "\<exists>db1.
         create_booking ascii_int ?p empty_db =
           (Inr \<lparr>status = ''confirmed'', BookingResponse.date = ''2024-06-10'',
                 BookingResponse.time = ''10:00'', timezone = ''IST''\<rparr>, db1)
       \<and> fst (create_booking ascii_int (?p\<lparr>BookingRequest.name := ''Bala''\<rparr>) db1) = Inl conflict_error"
    using booking_twice[OF h1 h2 h3 h4 h5 h6 h7, of empty_db]
    by (simp add: empty_db_def example_request_fields) blast
  then show ?thesis using h1 h2 h3 h6 h7 by simp
qed

subsection \<open>The full grid\<close>

text \<open>
  C2: the claim says that for every weekday date with no bookings stored the query
  returns the sixteen slots. 0001-01-01 is a Monday and 9999-12-31 is a Friday, both
  accepted by \<open>ist_date_from_str\<close>; on the empty store \<open>get_availability\<close> ends in
  \<open>OverflowError\<close> for either date, raised outside any \<open>try\<close> where it builds the UTC
  window of the day: midnight of 0001-01-01 minus 5:30, and 9999-12-31 plus one day, are
  no \<open>datetime\<close> values. \<open>create_booking\<close> accepts both dates.
\<close>

theorem availability_raises_at_calendar_ends:
  "ist_date_from_str ascii_int ''0001-01-01'' =
     Inr \<lparr>date_part = \<lparr>year = 1, month = 1, day = 1\<rparr>, time_part = midnight\<rparr>
   \<and> weekday \<lparr>date_part = \<lparr>year = 1, month = 1, day = 1\<rparr>, time_part = midnight\<rparr> = 0
   \<and> booking empty_db = []
   \<and> fst (get_availability ascii_int fromisoformat_seconds ''0001-01-01'' empty_db)
       = Inl OverflowError
   \<and> ist_date_from_str ascii_int ''9999-12-31'' =
       Inr \<lparr>date_part = \<lparr>year = 9999, month = 12, day = 31\<rparr>, time_part = midnight\<rparr>
   \<and> weekday \<lparr>date_part = \<lparr>year = 9999, month = 12, day = 31\<rparr>, time_part = midnight\<rparr> = 4
   \<and> fst (get_availability ascii_int fromisoformat_seconds ''9999-12-31'' empty_db)
       = Inl OverflowError
   \<and> fst (create_booking ascii_int (example_request ''0001-01-01'' ''09:00'') empty_db) =
       Inr \<lparr>status = ''confirmed'', BookingResponse.date = ''0001-01-01'',
            BookingResponse.time = ''09:00'', timezone = ''IST''\<rparr>
   \<and> fst (create_booking ascii_int (example_request ''9999-12-31'' ''16:30'') empty_db) =
       Inr \<lparr>status = ''confirmed'', BookingResponse.date = ''9999-12-31'',
            BookingResponse.time = ''16:30'', timezone = ''IST''\<rparr>"
proof -
  have "booking empty_db = []" by (simp add: empty_db_def)
  then show ?thesis
    by (simp add: date_0001_01_01 weekday_0001_01_01 date_9999_12_31 weekday_9999_12_31
        availability_0001_01_01 availability_9999_12_31 book_calendar_ends)
qed

text \<open>
  On every other weekday the query answers as the claim says: if no stored booking has its
  start text in the day's window, the slot list is the sixteen texts from 09:00 to 16:30
  in ascending order, after one read of the store.
\<close>

lemma availability_full_grid:
  assumes date: "ist_date_from_str int_of date_str = Inr date_dt"
    and wd: "weekday date_dt < 5"
    and first: "date_part date_dt \<noteq> \<lparr>year = 1, month = 1, day = 1\<rparr>"
    and last: "date_part date_dt \<noteq> \<lparr>year = 9999, month = 12, day = 31\<rparr>"
  shows "\<exists>day_start_utc next_dt day_end_utc.
           to_utc_from_ist date_dt midnight = Inr day_start_utc
         \<and> datetime_add date_dt (mk_timedelta 1 0 0) = Inr next_dt
         \<and> to_utc_from_ist next_dt midnight = Inr day_end_utc
         \<and> ((\<forall>doc\<in>set (booking db).
                \<not> in_window (isoformat day_start_utc) (isoformat day_end_utc) doc)
             \<longrightarrow> get_availability int_of fromiso date_str db =
                   (Inr \<lparr>AvailabilityResponse.date = date_str, slots = full_grid\<rparr>,
                    db\<lparr>ops := ops db @ [Find]\<rparr>))
         \<and> length full_grid = 16 \<and> sorted_wrt str_lt full_grid"
proof -
  obtain day_start_utc next_dt day_end_utc where
    w: "to_utc_from_ist date_dt midnight = Inr day_start_utc"
      "datetime_add date_dt (mk_timedelta 1 0 0) = Inr next_dt"
      "to_utc_from_ist next_dt midnight = Inr day_end_utc"
    using day_window[OF ist_date_from_str_valid[OF date] first last] by blast
  have grid: "length full_grid = 16" "sorted_wrt str_lt full_grid"
    by (simp_all add: full_grid_def)
  have "get_availability int_of fromiso date_str db =
          (Inr \<lparr>AvailabilityResponse.date = date_str, slots = full_grid\<rparr>,
           db\<lparr>ops := ops db @ [Find]\<rparr>)"
    if "\<forall>doc\<in>set (booking db).
          \<not> in_window (isoformat day_start_utc) (isoformat day_end_utc) doc"
  proof -
    have "filter (in_window (isoformat day_start_utc) (isoformat day_end_utc)) (booking db) = []"
      using that by (simp add: filter_empty_conv)
    then show ?thesis
      using get_availability_steps[OF date wd w, of fromiso db] by simp
  qed
  then show ?thesis using w grid by blast
qed

lemma availability_full_grid_example:
  "ist_date_from_str ascii_int ''2024-06-10'' =
     Inr \<lparr>date_part = \<lparr>year = 2024, month = 6, day = 10\<rparr>, time_part = midnight\<rparr>
   \<and> weekday \<lparr>date_part = \<lparr>year = 2024, month = 6, day = 10\<rparr>, time_part = midnight\<rparr> < 5
   \<and> date_part \<lparr>date_part = \<lparr>year = 2024, month = 6, day = 10\<rparr>, time_part = midnight\<rparr>
       \<noteq> \<lparr>year = 1, month = 1, day = 1\<rparr>
   \<and> date_part \<lparr>date_part = \<lparr>year = 2024, month = 6, day = 10\<rparr>, time_part = midnight\<rparr>
       \<noteq> \<lparr>year = 9999, month = 12, day = 31\<rparr>
   \<and> get_availability ascii_int fromisoformat_seconds ''2024-06-10''
        \<lparr>booking = [\<lparr>Booking.name = ''Asha'', email = ''a@x.com'', phone = None,
                      date_ist = ''2024-06-11'', start_time_ist = ''10:00'',
                      start_utc_iso = ''2024-06-11T04:30:00'',
                      end_utc_iso = ''2024-06-11T05:00:00'', notes' = None\<rparr>],
         ops = []\<rparr>
       = (Inr \<lparr>AvailabilityResponse.date = ''2024-06-10'', slots = full_grid\<rparr>,
          \<lparr>booking = [\<lparr>Booking.name = ''Asha'', email = ''a@x.com'', phone = None,
                        date_ist = ''2024-06-11'', start_time_ist = ''10:00'',
                        start_utc_iso = ''2024-06-11T04:30:00'',
                        end_utc_iso = ''2024-06-11T05:00:00'', notes' = None\<rparr>],
           ops = [Find]\<rparr>)"
proof -
  let ?d = "\<lparr>date_part = \<lparr>year = 2024, month = 6, day = 10\<rparr>, time_part = midnight\<rparr>"
  let ?db = "\<lparr>booking = [\<lparr>Booking.name = ''Asha'', email = ''a@x.com'', phone = None,
                      date_ist = ''2024-06-11'', start_time_ist = ''10:00'',
                      start_utc_iso = ''2024-06-11T04:30:00'',
                      end_utc_iso = ''2024-06-11T05:00:00'', notes' = None\<rparr>],
              ops = []\<rparr>"
  have h2: "weekday ?d < 5" by (simp add: weekday_2024_06_10)
  have h3: "date_part ?d \<noteq> \<lparr>year = 1, month = 1, day = 1\<rparr>"
    and h4: "date_part ?d \<noteq> \<lparr>year = 9999, month = 12, day = 31\<rparr>"
    by simp_all
  have "get_availability ascii_int fromisoformat_seconds ''2024-06-10'' ?db
       = (Inr \<lparr>AvailabilityResponse.date = ''2024-06-10'', slots = full_grid\<rparr>,
          ?db\<lparr>ops := ops ?db @ [Find]\<rparr>)"
    using availability_full_grid[OF date_2024_06_10 h2 h3 h4, of ?db fromisoformat_seconds]
      other_day_outside_window
    by (auto simp: window_2024_06_10)
  then show ?thesis using date_2024_06_10 h2 by simp
qed

subsection \<open>A booked slot is no longer offered\<close>

text \<open>
  C3: after \<open>create_booking\<close> has accepted a request whose time is one of the sixteen
  grid texts, no answer of \<open>get_availability\<close> for the same date lists that time: the
  document just written lies in the day's window, its start text is read back, and
  adding the offset gives the slot's text, which is removed from the grid. For every
  date other than 0001-01-01 and 9999-12-31 the query does answer with a slot list,
  after one read of the store. \<open>int\<close> is assumed to read ASCII digits as their decimal
  value and \<open>fromisoformat\<close> to invert \<open>isoformat\<close>.
\<close>

theorem booked_slot_not_listed:
  assumes dec: "reads_decimal int_of"
    and inv: "inverts_isoformat fromiso"
    and date: "ist_date_from_str int_of (BookingRequest.date payload) = Inr date_dt"
    and grid: "BookingRequest.time payload \<in> set full_grid"
    and ok: "create_booking int_of payload db = (Inr r, db1)"
  shows "(\<forall>a db2. get_availability int_of fromiso (BookingRequest.date payload) db1 = (Inr a, db2)
            \<longrightarrow> BookingRequest.time payload \<notin> set (slots a))
       \<and> (date_part date_dt \<noteq> \<lparr>year = 1, month = 1, day = 1\<rparr>
            \<and> date_part date_dt \<noteq> \<lparr>year = 9999, month = 12, day = 31\<rparr>
          \<longrightarrow> (\<exists>a. get_availability int_of fromiso (BookingRequest.date payload) db1
                     = (Inr a, db1\<lparr>ops := ops db1 @ [Find]\<rparr>)
                   \<and> BookingRequest.time payload \<notin> set (slots a)))"
proof -
  have wd: "weekday date_dt < 5"
    using ok date by (auto simp: create_booking_def split: if_splits)
  obtain t_obj where tm: "parse_time int_of (BookingRequest.time payload) = Some t_obj"
    using ok date wd by (auto simp: create_booking_def split: option.splits)
  have hrs: "9 \<le> hour t_obj" "hour t_obj < 17"
    using ok date wd tm
    by (auto simp: create_booking_def START_HOUR_IST_def END_HOUR_IST_def split: if_splits)
  note vd = ist_date_from_str_valid(1)[OF date] and mid = ist_date_from_str_valid(2)[OF date]
  note vt = parse_time_valid(1)[OF tm]
  let ?q = "get_availability int_of fromiso (BookingRequest.date payload) db1"
  show ?thesis
  proof (cases "date_part date_dt = \<lparr>year = 1, month = 1, day = 1\<rparr>
              \<or> date_part date_dt = \<lparr>year = 9999, month = 12, day = 31\<rparr>")
    case True
    then have "?q = (Inl OverflowError, db1)"
      using get_availability_first_day[OF date wd] get_availability_last_day[OF date wd]
      by blast
    then show ?thesis using True by simp
  next
    case False
    obtain start_utc end_utc where
      s: "to_utc_from_ist date_dt t_obj = Inr start_utc"
      and e: "datetime_add start_utc (mk_timedelta 0 0 SLOT_MINUTES) = Inr end_utc"
      and v: "valid_datetime start_utc" "valid_datetime end_utc"
      and ds: "date_part start_utc = date_part date_dt"
      and ts: "time_part start_utc = time_of_seconds (seconds_of_time t_obj - 19800)"
      and rt: "datetime_add start_utc IST_OFFSET = Inr (combine (date_part date_dt) t_obj)"
      using booking_interval[OF vd vt hrs] by blast
    let ?doc = "\<lparr>Booking.name = BookingRequest.name payload,
                  Booking.email = BookingRequest.email payload,
                  Booking.phone = BookingRequest.phone payload,
                  date_ist = BookingRequest.date payload,
                  start_time_ist = BookingRequest.time payload,
                  start_utc_iso = isoformat start_utc,
                  end_utc_iso = isoformat end_utc,
                  Booking.notes' = BookingRequest.notes' payload\<rparr>"
    have db1: "booking db1 = booking db @ [?doc]"
      using ok create_booking_steps[OF date wd tm hrs s e, of db]
      by (auto split: option.splits)
    obtain d_prev next_dt where
      p: "prev_day (date_part date_dt) = Inr d_prev"
      and w: "to_utc_from_ist date_dt midnight =
                Inr \<lparr>date_part = d_prev, time_part = \<lparr>hour = 18, minute = 30, second = 0\<rparr>\<rparr>"
        "datetime_add date_dt (mk_timedelta 1 0 0) = Inr next_dt"
        "to_utc_from_ist next_dt midnight =
                Inr \<lparr>date_part = date_part date_dt,
                     time_part = \<lparr>hour = 18, minute = 30, second = 0\<rparr>\<rparr>"
      using day_window[OF vd mid] False by blast
    let ?lo = "isoformat \<lparr>date_part = d_prev,
                          time_part = \<lparr>hour = 18, minute = 30, second = 0\<rparr>\<rparr>"
    let ?hi = "isoformat \<lparr>date_part = date_part date_dt,
                          time_part = \<lparr>hour = 18, minute = 30, second = 0\<rparr>\<rparr>"
    let ?existing = "filter (in_window ?lo ?hi) (booking db1)"
    let ?taken = "mark_taken fromiso ?existing {}"
    have q: "?q = (Inr \<lparr>AvailabilityResponse.date = BookingRequest.date payload,
                        slots = filter (\<lambda>slot. slot \<notin> ?taken) full_grid\<rparr>,
                   db1\<lparr>ops := ops db1 @ [Find]\<rparr>)"
      using get_availability_steps[OF date wd w, of fromiso db1] .
    have bounds: "0 \<le> seconds_of_time t_obj - 19800" "seconds_of_time t_obj - 19800 < 66600"
      using vt hrs by (auto simp: seconds_of_time_def valid_time_def)
    have su: "start_utc = \<lparr>date_part = date_part date_dt,
                             time_part = time_of_seconds (seconds_of_time t_obj - 19800)\<rparr>"
      using ds ts by (intro datetime.equality) simp_all
    have "in_window ?lo ?hi ?doc"
      using booked_start_in_window[OF vd p bounds, of ?doc] su by simp
    then have mem: "?doc \<in> set ?existing" using db1 by simp
    have parsed: "fromiso (start_utc_iso ?doc) = Some start_utc"
      "fromiso (end_utc_iso ?doc) = Some end_utc"
      using inv v by (simp_all add: inverts_isoformat_def)
    have slot_text: "hhmm (hour t_obj) (minute t_obj) = BookingRequest.time payload"
      using grid_time_round_trip[OF dec grid tm] .
    have "BookingRequest.time payload \<in> ?taken"
      unfolding mark_taken_iff
      using mem parsed rt slot_text by (intro disjI2 bexI[of _ ?doc]) (auto simp: combine_def)
    then have "BookingRequest.time payload
                 \<notin> set (filter (\<lambda>slot. slot \<notin> ?taken) full_grid)"
      by simp
    then show ?thesis using q False by auto
  qed
qed

theorem booked_slot_not_listed_witness:
  "reads_decimal ascii_int
   \<and> inverts_isoformat fromisoformat_seconds
   \<and> ist_date_from_str ascii_int (BookingRequest.date (example_request ''2024-06-10'' ''10:00''))
       = Inr \<lparr>date_part = \<lparr>year = 2024, month = 6, day = 10\<rparr>, time_part = midnight\<rparr>
   \<and> BookingRequest.time (example_request ''2024-06-10'' ''10:00'') \<in> set full_grid
   \<and> create_booking ascii_int (example_request ''2024-06-10'' ''10:00'') empty_db =
       (Inr \<lparr>status = ''confirmed'', BookingResponse.date = ''2024-06-10'',
             BookingResponse.time = ''10:00'', timezone = ''IST''\<rparr>,
        \<lparr>booking = [\<lparr>Booking.name = ''Asha'', email = ''a@x.com'', phone = None,
                      date_ist = ''2024-06-10'', start_time_ist = ''10:00'',
                      start_utc_iso = ''2024-06-10T04:30:00'',
                      end_utc_iso = ''2024-06-10T05:00:00'', notes' = None\<rparr>],
         ops = [FindOne, InsertOne]\<rparr>)
   \<and> (\<exists>a. get_availability ascii_int fromisoformat_seconds ''2024-06-10''
              \<lparr>booking = [\<lparr>Booking.name = ''Asha'', email = ''a@x.com'', phone = None,
                            date_ist = ''2024-06-10'', start_time_ist = ''10:00'',
                            start_utc_iso = ''2024-06-10T04:30:00'',
                            end_utc_iso = ''2024-06-10T05:00:00'', notes' = None\<rparr>],
               ops = [FindOne, InsertOne]\<rparr>
            = (Inr a,
               \<lparr>booking = [\<lparr>Booking.name = ''Asha'', email = ''a@x.com'', phone = None,
                             date_ist = ''2024-06-10'', start_time_ist = ''10:00'',
                             start_utc_iso = ''2024-06-10T04:30:00'',
                             end_utc_iso = ''2024-06-10T05:00:00'', notes' = None\<rparr>],
                ops = [FindOne, InsertOne, Find]\<rparr>)
          \<and> ''10:00'' \<notin> set (slots a))"
proof -
  let ?p = "example_request ''2024-06-10'' ''10:00''"
  let ?d = "\<lparr>date_part = \<lparr>year = 2024, month = 6, day = 10\<rparr>, time_part = midnight\<rparr>"
  have h1: "ist_date_from_str ascii_int (BookingRequest.date ?p) = Inr ?d"
    by (simp add: example_request_fields date_2024_06_10)
  have h2: "BookingRequest.time ?p \<in> set full_grid"
    by (simp add: example_request_fields full_grid_def)
  show ?thesis
    using booked_slot_not_listed[OF reads_decimal_ascii_int inverts_isoformat_seconds h1 h2
        book_10_00]
      reads_decimal_ascii_int inverts_isoformat_seconds h1 h2 book_10_00
    by (simp add: example_request_fields)
qed

subsection \<open>Slots are marked by their text\<close>

text \<open>
  C9: on a weekday, when \<open>get_availability\<close> answers with a slot list that leaves out a
  grid slot, some stored booking has a start text that \<open>fromisoformat\<close> reads, an end
  text that it reads, and a start instant whose local \<open>HH:MM\<close> text is exactly that
  slot. Overlap plays no part in the marking. So the store left by one accepted booking at
  09:15 on Monday 2024-06-10 is a state in which the query still lists all sixteen grid
  slots, 09:30 among them, while a request for 09:30 is refused with the conflict error.
  \<open>int\<close> is assumed to read ASCII digits as their decimal value and \<open>fromisoformat\<close> to
  invert \<open>isoformat\<close>.
\<close>

theorem offered_slot_can_conflict:
  assumes dec: "reads_decimal int_of" and inv: "inverts_isoformat fromiso"
  shows "(\<forall>date_str date_dt db a db' slot.
            ist_date_from_str int_of date_str = Inr date_dt \<and> weekday date_dt < 5
          \<and> get_availability int_of fromiso date_str db = (Inr a, db')
          \<and> slot \<in> set full_grid \<and> slot \<notin> set (slots a)
          \<longrightarrow> (\<exists>doc\<in>set (booking db). \<exists>s e ist_start.
                  fromiso (start_utc_iso doc) = Some s \<and> fromiso (end_utc_iso doc) = Some e
                \<and> datetime_add s IST_OFFSET = Inr ist_start
                \<and> hhmm (hour (time_part ist_start)) (minute (time_part ist_start)) = slot))
       \<and> (let db1 = snd (create_booking int_of (example_request ''2024-06-10'' ''09:15'')
                          empty_db);
               db2 = snd (get_availability int_of fromiso ''2024-06-10'' db1)
           in name_length_ok (example_request ''2024-06-10'' ''09:15'')
            \<and> fst (create_booking int_of (example_request ''2024-06-10'' ''09:15'') empty_db) =
                Inr \<lparr>status = ''confirmed'', BookingResponse.date = ''2024-06-10'',
                     BookingResponse.time = ''09:15'', timezone = ''IST''\<rparr>
            \<and> fst (get_availability int_of fromiso ''2024-06-10'' db1) =
                Inr \<lparr>AvailabilityResponse.date = ''2024-06-10'', slots = full_grid\<rparr>
            \<and> ''09:30'' \<in> set full_grid
            \<and> name_length_ok (example_request ''2024-06-10'' ''09:30'')
            \<and> fst (create_booking int_of (example_request ''2024-06-10'' ''09:30'') db2) =
                Inl conflict_error)"
proof (intro conjI allI impI)
  fix date_str date_dt db a db' slot
  assume h: "ist_date_from_str int_of date_str = Inr date_dt \<and> weekday date_dt < 5
          \<and> get_availability int_of fromiso date_str db = (Inr a, db')
          \<and> slot \<in> set full_grid \<and> slot \<notin> set (slots a)"
  then have date: "ist_date_from_str int_of date_str = Inr date_dt"
    and wd: "weekday date_dt < 5"
    and q: "get_availability int_of fromiso date_str db = (Inr a, db')"
    and grid: "slot \<in> set full_grid" and out: "slot \<notin> set (slots a)"
    by simp_all
  obtain day_start_utc where s: "to_utc_from_ist date_dt midnight = Inr day_start_utc"
    using q date wd
    by (cases "to_utc_from_ist date_dt midnight")
      (simp_all add: get_availability_def slot_loop_grid del: slot_loop.simps)
  obtain next_dt where n: "datetime_add date_dt (mk_timedelta 1 0 0) = Inr next_dt"
    using q date wd s
    by (cases "datetime_add date_dt (mk_timedelta 1 0 0)")
      (simp_all add: get_availability_def slot_loop_grid del: slot_loop.simps)
  obtain day_end_utc where e: "to_utc_from_ist next_dt midnight = Inr day_end_utc"
    using q date wd s n
    by (cases "to_utc_from_ist next_dt midnight")
      (simp_all add: get_availability_def slot_loop_grid del: slot_loop.simps)
  let ?existing = "filter (in_window (isoformat day_start_utc) (isoformat day_end_utc))
                     (booking db)"
  have "slots a = filter (\<lambda>slot. slot \<notin> mark_taken fromiso ?existing {}) full_grid"
    using q get_availability_steps[OF date wd s n e, of fromiso db] by auto
  then have "slot \<in> mark_taken fromiso ?existing {}"
    using grid out by simp
  then obtain doc s' e' ist_start where
    "doc \<in> set ?existing" "fromiso (start_utc_iso doc) = Some s'"
    "fromiso (end_utc_iso doc) = Some e'" "datetime_add s' IST_OFFSET = Inr ist_start"
    "slot = hhmm (hour (time_part ist_start)) (minute (time_part ist_start))"
    unfolding mark_taken_iff by blast
  then show "\<exists>doc\<in>set (booking db). \<exists>s e ist_start.
                  fromiso (start_utc_iso doc) = Some s \<and> fromiso (end_utc_iso doc) = Some e
                \<and> datetime_add s IST_OFFSET = Inr ist_start
                \<and> hhmm (hour (time_part ist_start)) (minute (time_part ist_start)) = slot"
    by (intro bexI[of _ doc] exI[of _ s'] exI[of _ e'] exI[of _ ist_start]) simp_all
next
  let ?d = "\<lparr>date_part = \<lparr>year = 2024, month = 6, day = 10\<rparr>, time_part = midnight\<rparr>"
  let ?p1 = "example_request ''2024-06-10'' ''09:15''"
  let ?p2 = "example_request ''2024-06-10'' ''09:30''"
  let ?doc = "\<lparr>Booking.name = ''Asha'', email = ''a@x.com'', phone = None,
                date_ist = ''2024-06-10'', start_time_ist = ''09:15'',
                start_utc_iso = ''2024-06-10T03:45:00'',
                end_utc_iso = ''2024-06-10T04:15:00'', notes' = None\<rparr>"
  let ?db1 = "\<lparr>booking = [?doc], ops = [FindOne, InsertOne]\<rparr>"
  let ?db2 = "\<lparr>booking = [?doc], ops = [FindOne, InsertOne, Find]\<rparr>"
  note date = decimal_date_2024_06_10[OF dec]
  have wd: "weekday ?d < 5" by (simp add: weekday_2024_06_10)
  have d1: "ist_date_from_str int_of (BookingRequest.date ?p1) = Inr ?d"
    and d2: "ist_date_from_str int_of (BookingRequest.date ?p2) = Inr ?d"
    using date by (simp_all add: example_request_fields)
  have t1: "parse_time int_of (BookingRequest.time ?p1) = Some \<lparr>hour = 9, minute = 15, second = 0\<rparr>"
    and t2: "parse_time int_of (BookingRequest.time ?p2) = Some \<lparr>hour = 9, minute = 30, second = 0\<rparr>"
    using decimal_times[OF dec] by (simp_all add: example_request_fields)
  have b1: "create_booking int_of ?p1 empty_db =
      (Inr \<lparr>status = ''confirmed'', BookingResponse.date = ''2024-06-10'',
            BookingResponse.time = ''09:15'', timezone = ''IST''\<rparr>, ?db1)"
    using create_booking_steps[OF d1 wd t1 _ _ intervals_09_15_and_09_30(1)
        intervals_09_15_and_09_30(2), of empty_db]
    by (simp add: empty_db_fields texts_09_15_and_09_30 example_request_person
        example_request_fields)
  have parsed: "fromiso ''2024-06-10T03:45:00'' =
        Some \<lparr>date_part = \<lparr>year = 2024, month = 6, day = 10\<rparr>,
              time_part = \<lparr>hour = 3, minute = 45, second = 0\<rparr>\<rparr>"
      "fromiso ''2024-06-10T04:15:00'' =
        Some \<lparr>date_part = \<lparr>year = 2024, month = 6, day = 10\<rparr>,
              time_part = \<lparr>hour = 4, minute = 15, second = 0\<rparr>\<rparr>"
    using inv valid_03_45 texts_09_15_and_09_30(1,2)
    by (auto simp: inverts_isoformat_def)
  have taken: "mark_taken fromiso [?doc] {} = {''09:15''}"
    using parsed intervals_09_15_and_09_30(5) texts_09_15_and_09_30(5) by simp
  have q: "get_availability int_of fromiso ''2024-06-10'' ?db1 =
      (Inr \<lparr>AvailabilityResponse.date = ''2024-06-10'', slots = full_grid\<rparr>, ?db2)"
    using get_availability_steps[OF date wd window_2024_06_10(1) window_2024_06_10(2)
        window_2024_06_10(3), of fromiso ?db1] queries_09_15(1) taken
    by (simp add: window_2024_06_10(4) window_2024_06_10(5) full_grid_def)
  have b2: "create_booking int_of ?p2 ?db2 =
      (Inl conflict_error, ?db2\<lparr>ops := ops ?db2 @ [FindOne]\<rparr>)"
    using create_booking_steps[OF d2 wd t2 _ _ intervals_09_15_and_09_30(3)
        intervals_09_15_and_09_30(4), of ?db2] queries_09_15(2)
    by (simp add: texts_09_15_and_09_30)
  have n1: "name_length_ok ?p1" and n2: "name_length_ok ?p2"
    by (simp_all add: name_length_ok_def example_request_def)
  have g: "''09:30'' \<in> set full_grid" by (simp add: full_grid_def)
  show "let db1 = snd (create_booking int_of ?p1 empty_db);
            db2 = snd (get_availability int_of fromiso ''2024-06-10'' db1)
        in name_length_ok ?p1
         \<and> fst (create_booking int_of ?p1 empty_db) =
             Inr \<lparr>status = ''confirmed'', BookingResponse.date = ''2024-06-10'',
                  BookingResponse.time = ''09:15'', timezone = ''IST''\<rparr>
         \<and> fst (get_availability int_of fromiso ''2024-06-10'' db1) =
             Inr \<lparr>AvailabilityResponse.date = ''2024-06-10'', slots = full_grid\<rparr>
         \<and> ''09:30'' \<in> set full_grid
         \<and> name_length_ok ?p2
         \<and> fst (create_booking int_of ?p2 db2) = Inl conflict_error"
    unfolding Let_def b1 snd_conv fst_conv q b2 using n1 n2 g by simp
qed

theorem offered_slot_can_conflict_witness:
  "reads_decimal ascii_int
   \<and> inverts_isoformat fromisoformat_seconds
   \<and> ist_date_from_str ascii_int ''2024-06-10'' =
       Inr \<lparr>date_part = \<lparr>year = 2024, month = 6, day = 10\<rparr>, time_part = midnight\<rparr>
   \<and> weekday \<lparr>date_part = \<lparr>year = 2024, month = 6, day = 10\<rparr>, time_part = midnight\<rparr> < 5
   \<and> get_availability ascii_int fromisoformat_seconds ''2024-06-10''
        \<lparr>booking = [\<lparr>Booking.name = ''Asha'', email = ''a@x.com'', phone = None,
                      date_ist = ''2024-06-10'', start_time_ist = ''10:00'',
                      start_utc_iso = ''2024-06-10T04:30:00'',
                      end_utc_iso = ''2024-06-10T05:00:00'', notes' = None\<rparr>],
         ops = [FindOne, InsertOne]\<rparr> =
      (Inr \<lparr>AvailabilityResponse.date = ''2024-06-10'',
            slots = [''09:00'', ''09:30'', ''10:30'', ''11:00'', ''11:30'', ''12:00'',
                     ''12:30'', ''13:00'', ''13:30'', ''14:00'', ''14:30'', ''15:00'',
                     ''15:30'', ''16:00'', ''16:30'']\<rparr>,
       \<lparr>booking = [\<lparr>Booking.name = ''Asha'', email = ''a@x.com'', phone = None,
                     date_ist = ''2024-06-10'', start_time_ist = ''10:00'',
                     start_utc_iso = ''2024-06-10T04:30:00'',
                     end_utc_iso = ''2024-06-10T05:00:00'', notes' = None\<rparr>],
        ops = [FindOne, InsertOne, Find]\<rparr>)
   \<and> ''10:00'' \<in> set full_grid
   \<and> (\<exists>doc\<in>set [\<lparr>Booking.name = ''Asha'', email = ''a@x.com'', phone = None,
                     date_ist = ''2024-06-10'', start_time_ist = ''10:00'',
                     start_utc_iso = ''2024-06-10T04:30:00'',
                     end_utc_iso = ''2024-06-10T05:00:00'', notes' = None\<rparr>].
        \<exists>s e ist_start.
          fromisoformat_seconds (start_utc_iso doc) = Some s
        \<and> fromisoformat_seconds (end_utc_iso doc) = Some e
        \<and> datetime_add s IST_OFFSET = Inr ist_start
        \<and> hhmm (hour (time_part ist_start)) (minute (time_part ist_start)) = ''10:00'')
   \<and> fst (create_booking ascii_int (example_request ''2024-06-10'' ''09:15'') empty_db) =
       Inr \<lparr>status = ''confirmed'', BookingResponse.date = ''2024-06-10'',
            BookingResponse.time = ''09:15'', timezone = ''IST''\<rparr>
   \<and> fst (get_availability ascii_int fromisoformat_seconds ''2024-06-10''
            (snd (create_booking ascii_int (example_request ''2024-06-10'' ''09:15'')
                    empty_db))) =
       Inr \<lparr>AvailabilityResponse.date = ''2024-06-10'', slots = full_grid\<rparr>
   \<and> fst (create_booking ascii_int (example_request ''2024-06-10'' ''09:30'')
            (snd (get_availability ascii_int fromisoformat_seconds ''2024-06-10''
                    (snd (create_booking ascii_int (example_request ''2024-06-10'' ''09:15'')
                            empty_db))))) =
       Inl conflict_error"
proof -
  let ?d = "\<lparr>date_part = \<lparr>year = 2024, month = 6, day = 10\<rparr>, time_part = midnight\<rparr>"
  let ?doc = "\<lparr>Booking.name = ''Asha'', email = ''a@x.com'', phone = None,
                date_ist = ''2024-06-10'', start_time_ist = ''10:00'',
                start_utc_iso = ''2024-06-10T04:30:00'',
                end_utc_iso = ''2024-06-10T05:00:00'', notes' = None\<rparr>"
  let ?db = "\<lparr>booking = [?doc], ops = [FindOne, InsertOne]\<rparr>"
  let ?a = "\<lparr>AvailabilityResponse.date = ''2024-06-10'',
             slots = [''09:00'', ''09:30'', ''10:30'', ''11:00'', ''11:30'', ''12:00'',
                      ''12:30'', ''13:00'', ''13:30'', ''14:00'', ''14:30'', ''15:00'',
                      ''15:30'', ''16:00'', ''16:30'']\<rparr>"
  let ?db' = "\<lparr>booking = [?doc], ops = [FindOne, InsertOne, Find]\<rparr>"
  note c9 = offered_slot_can_conflict[OF reads_decimal_ascii_int inverts_isoformat_seconds]
  have wd: "weekday ?d < 5" by (simp add: weekday_2024_06_10)
  have g: "''10:00'' \<in> set full_grid" by (simp add: full_grid_def)
  have out: "''10:00'' \<notin> set (slots ?a)" by simp
  have marked: "\<exists>doc\<in>set (booking ?db). \<exists>s e ist_start.
          fromisoformat_seconds (start_utc_iso doc) = Some s
        \<and> fromisoformat_seconds (end_utc_iso doc) = Some e
        \<and> datetime_add s IST_OFFSET = Inr ist_start
        \<and> hhmm (hour (time_part ist_start)) (minute (time_part ist_start)) = ''10:00''"
    using conjunct1[OF c9, rule_format, of "''2024-06-10''" ?d ?db ?a ?db' "''10:00''"]
      date_2024_06_10 wd availability_after_10_00 g out
    by blast
  have rest: "fst (create_booking ascii_int (example_request ''2024-06-10'' ''09:15'') empty_db) =
       Inr \<lparr>status = ''confirmed'', BookingResponse.date = ''2024-06-10'',
            BookingResponse.time = ''09:15'', timezone = ''IST''\<rparr>
   \<and> fst (get_availability ascii_int fromisoformat_seconds ''2024-06-10''
            (snd (create_booking ascii_int (example_request ''2024-06-10'' ''09:15'')
                    empty_db))) =
       Inr \<lparr>AvailabilityResponse.date = ''2024-06-10'', slots = full_grid\<rparr>
   \<and> fst (create_booking ascii_int (example_request ''2024-06-10'' ''09:30'')
            (snd (get_availability ascii_int fromisoformat_seconds ''2024-06-10''
                    (snd (create_booking ascii_int (example_request ''2024-06-10'' ''09:15'')
                            empty_db))))) =
       Inl conflict_error"
    using conjunct2[OF c9] unfolding Let_def by blast
  have m: "\<exists>doc\<in>set [?doc]. \<exists>s e ist_start.
          fromisoformat_seconds (start_utc_iso doc) = Some s
        \<and> fromisoformat_seconds (end_utc_iso doc) = Some e
        \<and> datetime_add s IST_OFFSET = Inr ist_start
        \<and> hhmm (hour (time_part ist_start)) (minute (time_part ist_start)) = ''10:00''"
    using marked by simp
  show ?thesis
    using reads_decimal_ascii_int inverts_isoformat_seconds date_2024_06_10 wd
      availability_after_10_00 g m rest
    by (intro conjI) blast+
qed

end
